theory Spec2Isabelle
  imports Main "HOL-Library.AList" "HOL-Library.Sublist" "HOL-Library.Monad_Syntax"
begin

section \<open>Values of the JavaScript runtime\<close>

text \<open>
  A JavaScript string is modelled as a \<^typ>\<open>string\<close>: a list of 8-bit code units
  (the Latin-1 range of UTF-16).  A thrown value is an \<open>Error\<close> object, of which only
  the \<open>message\<close> is ever read by the program.  A dynamically typed value (\<open>any\<close>) is a
  \<open>json\<close>: an object is the list of its own enumerable properties in insertion order,
  a number is kept as its JSON literal (its floating-point value is not modelled).
\<close>

datatype exn = Error (message: string)

datatype json =
    JUndefined
  | JNull
  | JBool bool
  | JNumber string
  | JString string
  | JArray "json list"
  | JObject "(string \<times> json) list"

text \<open>Decimal rendering of a non-negative integer, as string interpolation prints it.\<close>

definition digit_char :: "nat \<Rightarrow> char" where
  "digit_char d = ''0123456789'' ! (d mod 10)"

fun show_nat :: "nat \<Rightarrow> string" where
  "show_nat n = (if n < 10 then [digit_char n] else show_nat (n div 10) @ [digit_char (n mod 10)])"

declare show_nat.simps [simp del]

text \<open>Truthiness (\<open>ToBoolean\<close>): a number literal is falsy when all its mantissa digits are 0.\<close>

definition number_is_zero :: "string \<Rightarrow> bool" where
  "number_is_zero lit =
     list_all (\<lambda>c. c \<notin> set ''123456789'')
       (takeWhile (\<lambda>c. c \<noteq> CHR ''e'' \<and> c \<noteq> CHR ''E'') lit)"

fun js_truthy :: "json \<Rightarrow> bool" where
  "js_truthy JUndefined = False"
| "js_truthy JNull = False"
| "js_truthy (JBool b) = b"
| "js_truthy (JNumber lit) = (\<not> number_is_zero lit)"
| "js_truthy (JString s) = (s \<noteq> [])"
| "js_truthy (JArray _) = True"
| "js_truthy (JObject _) = True"

section \<open>Transport: \<open>OllamaClient.chat\<close>\<close>

datatype role = System | User | Assistant | Tool

record OllamaToolCall =
  tc_id :: string
  tc_name :: string
  tc_arguments :: string

text \<open>
  \<open>OllamaMessage\<close>; the type of the \<open>tool_calls\<close> field is a parameter, because the agent
  stores there (\<open>as any\<close>) whatever the stream aggregator produced.
\<close>

record 'tc OllamaMessage =
  role :: role
  content :: string
  tool_calls :: "'tc option"
  tool_call_id :: "string option"

record OllamaTool =
  tool_name :: string
  tool_description :: string
  tool_parameters :: json

record converted_tool_call =
  ctc_id :: string
  ctc_name :: string
  ctc_arguments :: json

record converted_message =
  cm_role :: role
  cm_content :: string
  cm_tool_calls :: "converted_tool_call list option"
  cm_tool_call_id :: "string option"

record request_payload =
  rp_model :: string
  rp_messages :: "converted_message list"
  rp_tools :: "OllamaTool list option"
  rp_stream :: bool

text \<open>The error object axios rejects with: \<open>error.message\<close>, \<open>error.code\<close>, \<open>error.response\<close>.\<close>

record axios_response =
  status :: nat
  data :: json
  headers :: json

record axios_error =
  err_message :: string
  err_code :: "string option"
  response :: "axios_response option"

record LastErrorDetails =
  led_timestamp :: string
  led_status :: nat
  led_message :: string
  led_response :: json
  led_headers :: json
  led_payload :: request_payload

record OllamaClient =
  currentModel :: string
  lastErrorDetails :: "LastErrorDetails option"

text \<open>
  What the program cannot decide by itself.  Of the runtime, \<open>JSON.parse\<close> and
  \<open>JSON.stringify\<close> (the latter as a template literal prints its result); of the
  server, the outcome of the \<open>k\<close>-th POST of a call (\<open>k = 0, 1, ...\<close>); and the clock read
  at the \<open>k\<close>-th failure.
\<close>

record runtime =
  JSON_parse :: "string \<Rightarrow> exn + json"
  JSON_stringify :: "json \<Rightarrow> string"

record 'r transport = runtime +
  post :: "nat \<Rightarrow> axios_error + 'r"
  now :: "nat \<Rightarrow> string"

definition getLastErrorDetails :: "OllamaClient \<Rightarrow> LastErrorDetails option" where
  "getLastErrorDetails c = lastErrorDetails c"

definition clearLastErrorDetails :: "OllamaClient \<Rightarrow> OllamaClient" where
  "clearLastErrorDetails c = c\<lparr>lastErrorDetails := None\<rparr>"

definition convertToolCall :: "(string \<Rightarrow> exn + json) \<Rightarrow> OllamaToolCall \<Rightarrow> converted_tool_call" where
  "convertToolCall parse toolCall =
     \<lparr>ctc_id = tc_id toolCall, ctc_name = tc_name toolCall,
      ctc_arguments = (case parse (tc_arguments toolCall) of
                         Inr v \<Rightarrow> v
                       | Inl _ \<Rightarrow> JObject [])\<rparr>"

definition convertMessages ::
  "(string \<Rightarrow> exn + json) \<Rightarrow> (OllamaToolCall list) OllamaMessage list \<Rightarrow> converted_message list" where
  "convertMessages parse messages =
     map (\<lambda>msg.
       \<lparr>cm_role = role msg, cm_content = content msg,
        cm_tool_calls = map_option (map (convertToolCall parse)) (tool_calls msg),
        cm_tool_call_id = (case tool_call_id msg of
                             Some i \<Rightarrow> (if i \<noteq> [] then Some i else None)
                           | None \<Rightarrow> None)\<rparr>) messages"

definition convertTools :: "OllamaTool list \<Rightarrow> OllamaTool list" where
  "convertTools tools =
     map (\<lambda>tool. \<lparr>tool_name = tool_name tool, tool_description = tool_description tool,
                  tool_parameters = tool_parameters tool\<rparr>) tools"

definition requestPayload ::
  "'r transport \<Rightarrow> OllamaClient \<Rightarrow> (OllamaToolCall list) OllamaMessage list \<Rightarrow>
   OllamaTool list option \<Rightarrow> string option \<Rightarrow> request_payload" where
  "requestPayload env c messages tools model =
     \<lparr>rp_model = (case model of Some m \<Rightarrow> (if m \<noteq> [] then m else currentModel c)
                               | None \<Rightarrow> currentModel c),
      rp_messages = convertMessages (JSON_parse env) messages,
      rp_tools = (case tools of Some ts \<Rightarrow> (if length ts > 0 then Some (convertTools ts) else None)
                              | None \<Rightarrow> None),
      rp_stream = False\<rparr>"

definition error_status :: "axios_error \<Rightarrow> nat option" where
  "error_status e = map_option status (response e)"

definition errorMessage :: "'r transport \<Rightarrow> axios_error \<Rightarrow> string" where
  "errorMessage env e =
     ''Ollama API error: '' @ err_message e
     @ (case response e of
          Some r \<Rightarrow> (if status r \<noteq> 0 then '' (status: '' @ show_nat (status r) @ '')'' else [])
        | None \<Rightarrow> [])
     @ (case response e of
          Some r \<Rightarrow> (if js_truthy (data r) then '' - '' @ JSON_stringify env (data r) else [])
        | None \<Rightarrow> [])"

definition errorDetails :: "'r transport \<Rightarrow> nat \<Rightarrow> request_payload \<Rightarrow> axios_error \<Rightarrow> axios_response \<Rightarrow> LastErrorDetails" where
  "errorDetails env k payload e r =
     \<lparr>led_timestamp = now env k, led_status = status r, led_message = err_message e,
      led_response = data r, led_headers = headers r,
      led_payload = \<lparr>rp_model = rp_model payload, rp_messages = rp_messages payload,
                     rp_tools = rp_tools payload, rp_stream = False\<rparr>\<rparr>"

definition record_error :: "'r transport \<Rightarrow> nat \<Rightarrow> request_payload \<Rightarrow> axios_error \<Rightarrow> OllamaClient \<Rightarrow> OllamaClient" where
  "record_error env k payload e c =
     (case response e of
        Some r \<Rightarrow>
          (if 400 \<le> status r \<and> status r < 500
           then c\<lparr>lastErrorDetails := Some (errorDetails env k payload e r)\<rparr>
           else c)
      | None \<Rightarrow> c)"

definition isRetryable :: "axios_error \<Rightarrow> bool" where
  "isRetryable e =
     (error_status e = Some 429
      \<or> (case error_status e of Some s \<Rightarrow> 500 \<le> s \<and> s \<le> 504 | None \<Rightarrow> False)
      \<or> err_code e = Some ''ECONNREFUSED'' \<or> err_code e = Some ''ETIMEDOUT'')"

definition maxRetries :: nat where
  "maxRetries = 3"

text \<open>
  The result of a call: what it returns or throws, the client afterwards, the delays it
  slept (milliseconds, in order) and the number of POSTs it made.
\<close>

record 'r chat_result =
  outcome :: "exn + 'r"
  client :: OllamaClient
  sleeps :: "nat list"
  attempts :: nat

function chat_loop ::
  "'r transport \<Rightarrow> request_payload \<Rightarrow> nat \<Rightarrow> OllamaClient \<Rightarrow> nat list \<Rightarrow> 'r chat_result" where
  "chat_loop env payload retryCount c slept =
     (if retryCount \<le> maxRetries then
        (case post env retryCount of
           Inr response_data \<Rightarrow>
             \<lparr>outcome = Inr response_data, client = c, sleeps = slept, attempts = retryCount + 1\<rparr>
         | Inl e \<Rightarrow>
             (let retryCount' = retryCount + 1;
                  c' = record_error env retryCount payload e c
              in if retryCount' \<le> maxRetries \<and> isRetryable e
                 then chat_loop env payload retryCount' c' (slept @ [2 ^ (retryCount' - 1) * 1000])
                 else \<lparr>outcome = Inl (Error (errorMessage env e)), client = c', sleeps = slept,
                       attempts = retryCount'\<rparr>))
      else \<lparr>outcome = Inl (Error ''Unexpected error: exceeded retry loop''), client = c,
            sleeps = slept, attempts = retryCount\<rparr>)"
  by pat_completeness auto
termination
  by (relation "measure (\<lambda>(env, payload, retryCount, c, slept). Suc maxRetries - retryCount)")
     auto

declare chat_loop.simps [simp del]

definition chat ::
  "'r transport \<Rightarrow> OllamaClient \<Rightarrow> (OllamaToolCall list) OllamaMessage list \<Rightarrow>
   OllamaTool list option \<Rightarrow> string option \<Rightarrow> 'r chat_result" where
  "chat env c messages tools model =
     chat_loop env (requestPayload env c messages tools model) 0 c []"

text \<open>
  A failure is client-class when the server answered with a status in 400..499;
  \<open>quiet env a b\<close>: no POST with index in \<open>[a, b)\<close> failed that way.
\<close>

definition client_error :: "axios_error \<Rightarrow> axios_response \<Rightarrow> bool" where
  "client_error e r = (response e = Some r \<and> 400 \<le> status r \<and> status r < 500)"

definition quiet :: "'r transport \<Rightarrow> nat \<Rightarrow> nat \<Rightarrow> bool" where
  "quiet env a b = (\<forall>j e r. a \<le> j \<and> j < b \<and> post env j = Inl e \<longrightarrow> \<not> client_error e r)"

subsection \<open>Example servers\<close>

definition http_failure :: "nat \<Rightarrow> axios_error" where
  "http_failure st =
     \<lparr>err_message = ''Request failed with status code '' @ show_nat st,
      err_code = Some (if st < 500 then ''ERR_BAD_REQUEST'' else ''ERR_BAD_RESPONSE''),
      response = Some \<lparr>status = st, data = JNull, headers = JObject []\<rparr>\<rparr>"

definition connection_refused :: axios_error where
  "connection_refused =
     \<lparr>err_message = ''connect ECONNREFUSED 127.0.0.1:11434'', err_code = Some ''ECONNREFUSED'',
      response = None\<rparr>"

definition not_found_response :: axios_response where
  "not_found_response = \<lparr>status = 404, data = JNull, headers = JObject []\<rparr>"

definition example_transport :: "(nat \<Rightarrow> axios_error + string) \<Rightarrow> string transport" where
  "example_transport outcomes =
     \<lparr>JSON_parse = (\<lambda>s. Inl (Error ''Unexpected end of JSON input'')),
      JSON_stringify = (\<lambda>v. ''null''),
      post = outcomes, now = (\<lambda>k. ''2026-01-01T00:00:0'' @ show_nat k @ ''.000Z'')\<rparr>"

definition flaky_server :: "string transport" where
  "flaky_server = example_transport (\<lambda>k. if k < 3 then Inl (http_failure 503) else Inr ''pong'')"

definition missing_server :: "string transport" where
  "missing_server = example_transport (\<lambda>k. Inl (http_failure 404))"

definition down_server :: "string transport" where
  "down_server = example_transport (\<lambda>k. Inl connection_refused)"

definition example_client :: OllamaClient where
  "example_client = \<lparr>currentModel = ''qwen2.5-coder:3b'', lastErrorDetails = None\<rparr>"

definition example_messages :: "(OllamaToolCall list) OllamaMessage list" where
  "example_messages = [\<lparr>role = User, content = ''ping'', tool_calls = None, tool_call_id = None\<rparr>]"

subsection \<open>Retry and backoff\<close>

lemma chat_loop_unfold:
  "chat_loop env p 0 c [] =
   (case post env 0 of
      Inr r \<Rightarrow> \<lparr>outcome = Inr r, client = c, sleeps = [], attempts = 1\<rparr>
    | Inl e0 \<Rightarrow>
      let c0 = record_error env 0 p e0 c in
      if \<not> isRetryable e0
      then \<lparr>outcome = Inl (Error (errorMessage env e0)), client = c0, sleeps = [], attempts = 1\<rparr>
      else (case post env 1 of
        Inr r \<Rightarrow> \<lparr>outcome = Inr r, client = c0, sleeps = [1000], attempts = 2\<rparr>
      | Inl e1 \<Rightarrow>
        let c1 = record_error env 1 p e1 c0 in
        if \<not> isRetryable e1
        then \<lparr>outcome = Inl (Error (errorMessage env e1)), client = c1, sleeps = [1000],
               attempts = 2\<rparr>
        else (case post env 2 of
          Inr r \<Rightarrow> \<lparr>outcome = Inr r, client = c1, sleeps = [1000, 2000], attempts = 3\<rparr>
        | Inl e2 \<Rightarrow>
          let c2 = record_error env 2 p e2 c1 in
          if \<not> isRetryable e2
          then \<lparr>outcome = Inl (Error (errorMessage env e2)), client = c2,
                 sleeps = [1000, 2000], attempts = 3\<rparr>
          else (case post env 3 of
            Inr r \<Rightarrow> \<lparr>outcome = Inr r, client = c2, sleeps = [1000, 2000, 4000], attempts = 4\<rparr>
          | Inl e3 \<Rightarrow>
             \<lparr>outcome = Inl (Error (errorMessage env e3)),
              client = record_error env 3 p e3 c2, sleeps = [1000, 2000, 4000],
              attempts = 4\<rparr>))))"
  by (simp add: chat_loop.simps [of _ _ 0] chat_loop.simps [of _ _ "Suc 0"]
      chat_loop.simps [of _ _ "Suc (Suc 0)"] chat_loop.simps [of _ _ "Suc (Suc (Suc 0))"]
      numeral_2_eq_2 numeral_3_eq_3 maxRetries_def Let_def split: sum.splits)

lemma retryable_503: "error_status e = Some 503 \<Longrightarrow> isRetryable e"
  by (simp add: isRetryable_def)

lemma not_retryable_4xx:
  "error_status e = Some st \<Longrightarrow> 400 \<le> st \<Longrightarrow> st < 500 \<Longrightarrow> st \<noteq> 429 \<Longrightarrow>
   err_code e \<noteq> Some ''ECONNREFUSED'' \<Longrightarrow> err_code e \<noteq> Some ''ETIMEDOUT'' \<Longrightarrow> \<not> isRetryable e"
  by (simp add: isRetryable_def)

text \<open>
  C3.  A call of \<open>chat\<close> makes between one and four POSTs, and the delays it sleeps between
  them are the first \<open>attempts - 1\<close> of 1000, 2000, 4000 milliseconds.  Three failures with
  status 503 followed by a success return the successful response after four attempts.  A
  first failure with a status in 400..499 other than 429 (an HTTP error: its \<open>code\<close> is not
  a connection error's) is thrown at once, after one attempt and no delay.  Four retryable
  failures in a row make the call throw, after four attempts, an error whose message carries
  the message of the last failure.
\<close>

theorem chat_retry_policy:
  "(let R = chat env c messages tools model in
     1 \<le> attempts R \<and> attempts R \<le> 4 \<and> sleeps R = take (attempts R - 1) [1000, 2000, 4000]
   \<and> ((\<forall>k<3. \<exists>e. post env k = Inl e \<and> error_status e = Some 503) \<and> post env 3 = Inr r
        \<longrightarrow> outcome R = Inr r \<and> attempts R = 4 \<and> sleeps R = [1000, 2000, 4000])
   \<and> (post env 0 = Inl e \<and> error_status e = Some st \<and> 400 \<le> st \<and> st < 500 \<and> st \<noteq> 429
        \<and> err_code e \<noteq> Some ''ECONNREFUSED'' \<and> err_code e \<noteq> Some ''ETIMEDOUT''
        \<longrightarrow> outcome R = Inl (Error (errorMessage env e)) \<and> attempts R = 1 \<and> sleeps R = [])
   \<and> ((\<forall>k<4. \<exists>e. post env k = Inl e \<and> isRetryable e)
        \<longrightarrow> (\<exists>e. post env 3 = Inl e
              \<and> outcome R = Inl (Error (errorMessage env e))
              \<and> prefix (''Ollama API error: '' @ err_message e) (errorMessage env e)
              \<and> attempts R = 4 \<and> sleeps R = [1000, 2000, 4000])))"
proof -
  let ?p = "requestPayload env c messages tools model"
  let ?R = "chat_loop env ?p 0 c []"
  have shape: "1 \<le> attempts ?R \<and> attempts ?R \<le> 4
      \<and> sleeps ?R = take (attempts ?R - 1) [1000, 2000, 4000]"
    by (simp add: chat_loop_unfold Let_def split: sum.splits)
  have ok: "outcome ?R = Inr r \<and> attempts ?R = 4 \<and> sleeps ?R = [1000, 2000, 4000]"
    if h: "\<forall>k<3. \<exists>e. post env k = Inl e \<and> error_status e = Some 503" and s: "post env 3 = Inr r"
  proof -
    from h have "\<exists>e. post env 0 = Inl e \<and> error_status e = Some 503" by simp
    then obtain e0 where e0: "post env 0 = Inl e0" "error_status e0 = Some 503" by auto
    from h have "\<exists>e. post env 1 = Inl e \<and> error_status e = Some 503" by simp
    then obtain e1 where e1: "post env 1 = Inl e1" "error_status e1 = Some 503" by auto
    from h have "\<exists>e. post env 2 = Inl e \<and> error_status e = Some 503" by simp
    then obtain e2 where e2: "post env 2 = Inl e2" "error_status e2 = Some 503" by auto
    show ?thesis
      using e0 e1 e2 s by (simp add: chat_loop_unfold Let_def retryable_503)
  qed
  have fatal: "outcome ?R = Inl (Error (errorMessage env e)) \<and> attempts ?R = 1 \<and> sleeps ?R = []"
    if "post env 0 = Inl e" "error_status e = Some st" "400 \<le> st" "st < 500" "st \<noteq> 429"
       "err_code e \<noteq> Some ''ECONNREFUSED''" "err_code e \<noteq> Some ''ETIMEDOUT''"
    using that not_retryable_4xx [of e st] by (simp add: chat_loop_unfold Let_def)
  have exhausted: "\<exists>e. post env 3 = Inl e
        \<and> outcome ?R = Inl (Error (errorMessage env e))
        \<and> prefix (''Ollama API error: '' @ err_message e) (errorMessage env e)
        \<and> attempts ?R = 4 \<and> sleeps ?R = [1000, 2000, 4000]"
    if h: "\<forall>k<4. \<exists>e. post env k = Inl e \<and> isRetryable e"
  proof -
    from h have "\<exists>e. post env 0 = Inl e \<and> isRetryable e" by simp
    then obtain e0 where e0: "post env 0 = Inl e0" "isRetryable e0" by auto
    from h have "\<exists>e. post env 1 = Inl e \<and> isRetryable e" by simp
    then obtain e1 where e1: "post env 1 = Inl e1" "isRetryable e1" by auto
    from h have "\<exists>e. post env 2 = Inl e \<and> isRetryable e" by simp
    then obtain e2 where e2: "post env 2 = Inl e2" "isRetryable e2" by auto
    from h have "\<exists>e. post env 3 = Inl e \<and> isRetryable e" by simp
    then obtain e3 where e3: "post env 3 = Inl e3" "isRetryable e3" by auto
    have "outcome ?R = Inl (Error (errorMessage env e3)) \<and> attempts ?R = 4
        \<and> sleeps ?R = [1000, 2000, 4000]"
      using e0 e1 e2 e3 by (simp add: chat_loop_unfold Let_def)
    moreover have "prefix (''Ollama API error: '' @ err_message e3) (errorMessage env e3)"
      by (simp add: errorMessage_def)
    ultimately show ?thesis
      using e3 by blast
  qed
  show ?thesis
    unfolding Let_def chat_def using shape ok fatal exhausted by blast
qed

lemma show_nat_examples: "show_nat 404 = ''404''" "show_nat 503 = ''503''"
  by (simp_all add: show_nat.simps digit_char_def)

lemma flaky_post: "post flaky_server k = (if k < 3 then Inl (http_failure 503) else Inr ''pong'')"
  by (simp add: flaky_server_def example_transport_def)

theorem chat_retry_policy_witness:
  "outcome (chat flaky_server example_client example_messages None None) = Inr ''pong''
   \<and> attempts (chat flaky_server example_client example_messages None None) = 4
   \<and> sleeps (chat flaky_server example_client example_messages None None) = [1000, 2000, 4000]
   \<and> outcome (chat missing_server example_client example_messages None None)
       = Inl (Error ''Ollama API error: Request failed with status code 404 (status: 404)'')
   \<and> attempts (chat missing_server example_client example_messages None None) = 1
   \<and> sleeps (chat missing_server example_client example_messages None None) = []
   \<and> outcome (chat down_server example_client example_messages None None)
       = Inl (Error ''Ollama API error: connect ECONNREFUSED 127.0.0.1:11434'')
   \<and> attempts (chat down_server example_client example_messages None None) = 4
   \<and> sleeps (chat down_server example_client example_messages None None) = [1000, 2000, 4000]"
proof -
  let ?F = "chat flaky_server example_client example_messages None None"
  let ?M = "chat missing_server example_client example_messages None None"
  let ?D = "chat down_server example_client example_messages None None"
  have a: "(\<forall>k<3. \<exists>e. post flaky_server k = Inl e \<and> error_status e = Some 503)
      \<and> post flaky_server 3 = Inr ''pong''"
    by (simp add: flaky_post http_failure_def error_status_def)
  have b: "post missing_server 0 = Inl (http_failure 404) \<and> error_status (http_failure 404) = Some 404
      \<and> (400::nat) \<le> 404 \<and> (404::nat) < 500 \<and> (404::nat) \<noteq> 429
      \<and> err_code (http_failure 404) \<noteq> Some ''ECONNREFUSED''
      \<and> err_code (http_failure 404) \<noteq> Some ''ETIMEDOUT''"
    by (simp add: missing_server_def example_transport_def http_failure_def error_status_def)
  have c: "\<forall>k<4. \<exists>e. post down_server k = Inl e \<and> isRetryable e"
    by (simp add: down_server_def example_transport_def connection_refused_def isRetryable_def)
  have m: "errorMessage missing_server (http_failure 404)
      = ''Ollama API error: Request failed with status code 404 (status: 404)''"
    by (simp add: errorMessage_def http_failure_def show_nat_examples)
  have d: "post down_server 3 = Inl connection_refused"
    by (simp add: down_server_def example_transport_def)
  have n: "errorMessage down_server connection_refused
        = ''Ollama API error: connect ECONNREFUSED 127.0.0.1:11434''"
    by (simp add: errorMessage_def connection_refused_def)
  note F = chat_retry_policy [of flaky_server example_client example_messages None None "''pong''"
        "http_failure 404" 404, unfolded Let_def]
  note M = chat_retry_policy [of missing_server example_client example_messages None None "''pong''"
        "http_failure 404" 404, unfolded Let_def]
  note D = chat_retry_policy [of down_server example_client example_messages None None "''pong''"
        "http_failure 404" 404, unfolded Let_def]
  have A: "outcome ?F = Inr ''pong'' \<and> attempts ?F = 4 \<and> sleeps ?F = [1000, 2000, 4000]"
    using F a by blast
  have B: "outcome ?M = Inl (Error (errorMessage missing_server (http_failure 404)))
      \<and> attempts ?M = 1 \<and> sleeps ?M = []"
    using M b by blast
  have "\<exists>e. post down_server 3 = Inl e \<and> outcome ?D = Inl (Error (errorMessage down_server e))
        \<and> attempts ?D = 4 \<and> sleeps ?D = [1000, 2000, 4000]"
    using D c by blast
  then have C: "outcome ?D = Inl (Error (errorMessage down_server connection_refused))
        \<and> attempts ?D = 4 \<and> sleeps ?D = [1000, 2000, 4000]"
    using d by auto
  show ?thesis
    using A B C unfolding m n by blast
qed

subsection \<open>The diagnostics record\<close>

lemma record_error_hit:
  "client_error e r \<Longrightarrow>
   record_error env k p e c = c\<lparr>lastErrorDetails := Some (errorDetails env k p e r)\<rparr>"
  by (auto simp: client_error_def record_error_def split: option.splits)

lemma record_error_miss:
  "\<forall>r. \<not> client_error e r \<Longrightarrow> record_error env k p e c = c"
  by (auto simp: client_error_def record_error_def split: option.splits)

lemma record_error_model: "currentModel (record_error env k p e c) = currentModel c"
  by (simp add: record_error_def split: option.splits)

lemma quiet_first: "quiet env a b \<Longrightarrow> a < b \<Longrightarrow> post env a = Inl e \<Longrightarrow> \<not> client_error e r"
  by (auto simp: quiet_def)

lemma quiet_rest: "quiet env a b \<Longrightarrow> quiet env (Suc a) b"
  unfolding quiet_def using Suc_leD by blast

lemma chat_loop_attempts: "retryCount \<le> maxRetries \<Longrightarrow> retryCount < attempts (chat_loop env p retryCount c s)"
proof (induction env p retryCount c s rule: chat_loop.induct)
  case (1 env payload retryCount c slept)
  show ?case
  proof (cases "post env retryCount")
    case (Inr r)
    with "1.prems" show ?thesis
      by (simp add: chat_loop.simps [of env payload retryCount])
  next
    case (Inl e0)
    show ?thesis
    proof (cases "retryCount + 1 \<le> maxRetries \<and> isRetryable e0")
      case False
      with "1.prems" Inl show ?thesis
        by (auto simp add: chat_loop.simps [of env payload retryCount] Let_def)
    next
      case True
      with "1.IH" [OF "1.prems" Inl refl refl True] "1.prems" Inl show ?thesis
        by (simp add: chat_loop.simps [of env payload retryCount] Let_def)
    qed
  qed
qed

lemma chat_loop_client:
  "currentModel (client (chat_loop env p k0 c s)) = currentModel c \<and>
   (quiet env k0 (attempts (chat_loop env p k0 c s)) \<longrightarrow> client (chat_loop env p k0 c s) = c) \<and>
   (\<forall>k e r. k0 \<le> k \<and> k < attempts (chat_loop env p k0 c s) \<and> post env k = Inl e \<and> client_error e r \<and>
        quiet env (Suc k) (attempts (chat_loop env p k0 c s))
        \<longrightarrow> lastErrorDetails (client (chat_loop env p k0 c s)) = Some (errorDetails env k p e r))"
proof (induction env p k0 c s rule: chat_loop.induct)
  case (1 env payload retryCount c slept)
  let ?R = "chat_loop env payload retryCount c slept"
  show ?case
  proof (cases "retryCount \<le> maxRetries")
    case False
    then have R: "?R = \<lparr>outcome = Inl (Error ''Unexpected error: exceeded retry loop''), client = c,
            sleeps = slept, attempts = retryCount\<rparr>"
      by (simp add: chat_loop.simps [of env payload retryCount])
    show ?thesis unfolding R by auto
  next
    case le: True
    show ?thesis
    proof (cases "post env retryCount")
      case (Inr r)
      with le have R: "?R = \<lparr>outcome = Inr r, client = c, sleeps = slept, attempts = retryCount + 1\<rparr>"
        by (simp add: chat_loop.simps [of env payload retryCount])
      show ?thesis unfolding R using Inr by (auto simp: less_Suc_eq)
    next
      case (Inl e0)
      let ?c' = "record_error env retryCount payload e0 c"
      show ?thesis
      proof (cases "retryCount + 1 \<le> maxRetries \<and> isRetryable e0")
        case False
        with le Inl have R: "?R = \<lparr>outcome = Inl (Error (errorMessage env e0)), client = ?c',
              sleeps = slept, attempts = retryCount + 1\<rparr>"
          by (auto simp add: chat_loop.simps [of env payload retryCount] Let_def)
        have a: "currentModel ?c' = currentModel c"
          by (rule record_error_model)
        have b: "?c' = c" if "quiet env retryCount (retryCount + 1)"
          using quiet_first [OF that _ Inl] by (intro record_error_miss) simp
        have c: "lastErrorDetails ?c' = Some (errorDetails env k payload e r)"
          if "retryCount \<le> k" "k < retryCount + 1" "post env k = Inl e" "client_error e r" for k e r
        proof -
          from that have "k = retryCount" by simp
          with that Inl have "e = e0" by simp
          with that \<open>k = retryCount\<close> show ?thesis by (simp add: record_error_hit)
        qed
        show ?thesis unfolding R using a b c by simp
      next
        case True
        let ?R' = "chat_loop env payload (retryCount + 1) ?c' (slept @ [2 ^ (retryCount + 1 - 1) * 1000])"
        from True le Inl have R: "?R = ?R'"
          by (simp add: chat_loop.simps [of env payload retryCount] Let_def)
        have IH: "currentModel (client ?R') = currentModel ?c' \<and>
          (quiet env (retryCount + 1) (attempts ?R') \<longrightarrow> client ?R' = ?c') \<and>
          (\<forall>k e r. retryCount + 1 \<le> k \<and> k < attempts ?R' \<and> post env k = Inl e \<and> client_error e r \<and>
            quiet env (Suc k) (attempts ?R')
            \<longrightarrow> lastErrorDetails (client ?R') = Some (errorDetails env k payload e r))"
          using "1.IH" [OF le Inl refl refl True] by simp
        have more: "retryCount < attempts ?R'"
          using chat_loop_attempts [of "retryCount + 1" env payload ?c' "slept @ [2 ^ (retryCount + 1 - 1) * 1000]"] True
          by simp
        have a: "currentModel (client ?R') = currentModel c"
          using IH by (simp add: record_error_model)
        have b: "client ?R' = c" if q: "quiet env retryCount (attempts ?R')"
        proof -
          have "?c' = c"
            using quiet_first [OF q more Inl] by (intro record_error_miss) simp
          moreover have "client ?R' = ?c'"
            using IH quiet_rest [OF q] by simp
          ultimately show ?thesis by simp
        qed
        have c: "lastErrorDetails (client ?R') = Some (errorDetails env k payload e r)"
          if h: "retryCount \<le> k" "k < attempts ?R'" "post env k = Inl e" "client_error e r"
             "quiet env (Suc k) (attempts ?R')" for k e r
        proof (cases "k = retryCount")
          case True
          with h Inl have e: "e = e0" by simp
          have "client ?R' = ?c'"
            using IH h(5) True by simp
          then show ?thesis
            using h(4) e True by (simp add: record_error_hit)
        next
          case False
          with h(1) have "retryCount + 1 \<le> k" by simp
          with IH h show ?thesis by blast
        qed
        show ?thesis unfolding R using a b c by blast
      qed
    qed
  qed
qed


text \<open>
  C7.  A failed POST whose response has a status in 400..499 replaces \<open>lastErrorDetails\<close>
  (whatever it held) by one record with the timestamp, status, message, response body,
  headers and the outgoing payload; any other failure leaves the client as it was.  After a
  whole call of \<open>chat\<close>: when none of its POSTs failed with such a status the client is
  unchanged, otherwise \<open>getLastErrorDetails\<close> returns the record of the last POST that did.
  The record stays until \<open>clearLastErrorDetails\<close> resets it to null.
\<close>

theorem last_error_details_overwritten:
  "(client_error e r \<longrightarrow>
       getLastErrorDetails (record_error env k p e c) = Some (errorDetails env k p e r)
     \<and> errorDetails env k p e r =
         \<lparr>led_timestamp = now env k, led_status = status r, led_message = err_message e,
          led_response = data r, led_headers = headers r,
          led_payload = p\<lparr>rp_stream := False\<rparr>\<rparr>)
   \<and> ((\<forall>r. \<not> client_error e r) \<longrightarrow> record_error env k p e c = c)
   \<and> (let R = chat env c messages tools model; p' = requestPayload env c messages tools model in
        (quiet env 0 (attempts R) \<longrightarrow> client R = c)
      \<and> (k' < attempts R \<and> post env k' = Inl e' \<and> client_error e' r'
          \<and> quiet env (Suc k') (attempts R)
          \<longrightarrow> getLastErrorDetails (client R) = Some (errorDetails env k' p' e' r')
            \<and> led_payload (errorDetails env k' p' e' r') = p'))
   \<and> getLastErrorDetails (c\<lparr>lastErrorDetails := Some d\<rparr>) = Some d
   \<and> getLastErrorDetails (clearLastErrorDetails c) = None"
proof -
  let ?p = "requestPayload env c messages tools model"
  have one: "getLastErrorDetails (record_error env k p e c) = Some (errorDetails env k p e r)"
    if "client_error e r"
    using that by (simp add: record_error_hit getLastErrorDetails_def)
  have fields: "errorDetails env k p e r =
         \<lparr>led_timestamp = now env k, led_status = status r, led_message = err_message e,
          led_response = data r, led_headers = headers r,
          led_payload = p\<lparr>rp_stream := False\<rparr>\<rparr>"
    by (simp add: errorDetails_def)
  have payload: "led_payload (errorDetails env k' ?p e' r') = ?p"
    by (simp add: errorDetails_def requestPayload_def)
  note whole = chat_loop_client [of env ?p 0 c "[]"]
  have unchanged: "client (chat env c messages tools model) = c"
    if "quiet env 0 (attempts (chat env c messages tools model))"
    using whole that by (simp add: chat_def)
  have latest: "getLastErrorDetails (client (chat env c messages tools model))
      = Some (errorDetails env k' ?p e' r')"
    if "k' < attempts (chat env c messages tools model)" "post env k' = Inl e'"
       "client_error e' r'" "quiet env (Suc k') (attempts (chat env c messages tools model))"
    using whole that by (simp add: chat_def getLastErrorDetails_def)
  show ?thesis
    unfolding Let_def
    using one fields record_error_miss [of e env k p c] unchanged latest payload
    by (simp add: getLastErrorDetails_def clearLastErrorDetails_def)
qed

lemma missing_attempts: "attempts (chat missing_server example_client example_messages None None) = 1"
  by (simp add: chat_def chat_loop_unfold missing_server_def example_transport_def isRetryable_def
      http_failure_def error_status_def Let_def)

lemma down_quiet: "quiet down_server a b"
  by (simp add: quiet_def down_server_def example_transport_def client_error_def connection_refused_def)

theorem last_error_details_overwritten_witness:
  "getLastErrorDetails (client (chat missing_server example_client example_messages None None))
     = Some \<lparr>led_timestamp = ''2026-01-01T00:00:00.000Z'', led_status = 404,
              led_message = ''Request failed with status code 404'',
              led_response = JNull, led_headers = JObject [],
              led_payload = \<lparr>rp_model = ''qwen2.5-coder:3b'',
                rp_messages = [\<lparr>cm_role = User, cm_content = ''ping'', cm_tool_calls = None,
                                 cm_tool_call_id = None\<rparr>],
                rp_tools = None, rp_stream = False\<rparr>\<rparr>
   \<and> client (chat down_server example_client example_messages None None) = example_client
   \<and> getLastErrorDetails (clearLastErrorDetails
        (client (chat missing_server example_client example_messages None None))) = None"
proof -
  let ?M = "chat missing_server example_client example_messages None None"
  let ?D = "chat down_server example_client example_messages None None"
  let ?p = "requestPayload missing_server example_client example_messages None None"
  have ce: "client_error (http_failure 404) not_found_response"
    by (simp add: client_error_def http_failure_def not_found_response_def)
  have h: "0 < attempts ?M \<and> post missing_server 0 = Inl (http_failure 404)
      \<and> client_error (http_failure 404) not_found_response
      \<and> quiet missing_server (Suc 0) (attempts ?M)"
  proof -
    have "post missing_server 0 = Inl (http_failure 404)"
      by (simp add: missing_server_def example_transport_def)
    moreover have "quiet missing_server (Suc 0) (attempts ?M)"
      by (simp add: missing_attempts quiet_def)
    ultimately show ?thesis
      using ce by (simp add: missing_attempts)
  qed
  note M = last_error_details_overwritten [of "http_failure 404" not_found_response missing_server 0
      ?p example_client example_messages None None 0 "http_failure 404" not_found_response
      "errorDetails missing_server 0 ?p (http_failure 404) not_found_response", unfolded Let_def]
  note D = last_error_details_overwritten [of "http_failure 404" not_found_response down_server 0
      ?p example_client example_messages None None 0 "http_failure 404" not_found_response
      "errorDetails missing_server 0 ?p (http_failure 404) not_found_response", unfolded Let_def]
  have A: "getLastErrorDetails (client ?M)
      = Some (errorDetails missing_server 0 ?p (http_failure 404) not_found_response)"
    using M h by blast
  have B: "client ?D = example_client"
    using D down_quiet by blast
  have C: "getLastErrorDetails (clearLastErrorDetails (client ?M)) = None"
    using last_error_details_overwritten [of "http_failure 404" not_found_response missing_server 0
      ?p "client ?M" example_messages None None 0 "http_failure 404" not_found_response
      "errorDetails missing_server 0 ?p (http_failure 404) not_found_response"]
    by blast
  have v: "errorDetails missing_server 0 ?p (http_failure 404) not_found_response
     = \<lparr>led_timestamp = ''2026-01-01T00:00:00.000Z'', led_status = 404,
              led_message = ''Request failed with status code 404'',
              led_response = JNull, led_headers = JObject [],
              led_payload = \<lparr>rp_model = ''qwen2.5-coder:3b'',
                rp_messages = [\<lparr>cm_role = User, cm_content = ''ping'', cm_tool_calls = None,
                                 cm_tool_call_id = None\<rparr>],
                rp_tools = None, rp_stream = False\<rparr>\<rparr>"
    by (simp add: errorDetails_def requestPayload_def missing_server_def example_transport_def
        http_failure_def not_found_response_def example_client_def example_messages_def
        convertMessages_def show_nat.simps digit_char_def)
  show ?thesis
    using A B C unfolding v by blast
qed


section \<open>Conversation state: \<open>summarizeContext\<close>\<close>

definition newline :: char where
  "newline = CHR 0x0A"

text \<open>\<open>Array.prototype.slice\<close> with a negative bound, and \<open>join\<close>.\<close>

definition slice_last :: "nat \<Rightarrow> 'a list \<Rightarrow> 'a list" where
  "slice_last n xs = drop (length xs - n) xs"

definition slice_middle :: "nat \<Rightarrow> nat \<Rightarrow> 'a list \<Rightarrow> 'a list" where
  "slice_middle a n xs = drop a (take (length xs - n) xs)"

fun join :: "string \<Rightarrow> string list \<Rightarrow> string" where
  "join sep [] = []"
| "join sep [x] = x"
| "join sep (x # y # ys) = x @ sep @ join sep (y # ys)"

definition summaryLine :: "'tc OllamaMessage \<Rightarrow> string" where
  "summaryLine msg =
     (if role msg = User then ''User: '' @ content msg
      else if role msg = Assistant then ''Assistant: '' @ content msg
      else if role msg = Tool then ''Tool result: '' @ take 100 (content msg) @ ''...''
      else [])"

definition summaryContent :: "'tc OllamaMessage list \<Rightarrow> string" where
  "summaryContent messagesToSummarize =
     join [newline] (filter (\<lambda>line. line \<noteq> []) (map summaryLine messagesToSummarize))"

definition summaryMessage :: "'tc OllamaMessage list \<Rightarrow> 'tc OllamaMessage" where
  "summaryMessage messagesToSummarize =
     \<lparr>role = Assistant,
      content = ''[Context Summary] Previous conversation included:'' @ [newline]
                @ take 1000 (summaryContent messagesToSummarize) @ ''...'',
      tool_calls = None, tool_call_id = None\<rparr>"

text \<open>
  The body of the \<open>try\<close> block only reads the \<open>role\<close> and the string \<open>content\<close> of each
  message, so nothing in it raises and the \<open>catch\<close> branch (system message and recent
  messages only) is never entered.
\<close>

definition summarizeContext :: "'tc OllamaMessage list \<Rightarrow> 'tc OllamaMessage list" where
  "summarizeContext messages =
     (if length messages \<le> 10 then messages
      else let systemMessage = messages ! 0;
               recentMessages = slice_last 6 messages;
               messagesToSummarize = slice_middle 1 6 messages
           in if length messagesToSummarize = 0 then messages
              else [systemMessage, summaryMessage messagesToSummarize] @ recentMessages)"

text \<open>
  The head of \<open>processUserMessageStream\<close>: the token estimate of the log is compared with
  the threshold, the log is summarized above it, and the estimate is taken again.
\<close>

definition manageContextSize ::
  "('tc OllamaMessage list \<Rightarrow> nat) \<Rightarrow> 'tc OllamaMessage list \<Rightarrow> 'tc OllamaMessage list \<times> nat" where
  "manageContextSize countMessageTokens messages =
     (let inputTokens = countMessageTokens messages
      in if inputTokens > 15000
         then (let messages' = summarizeContext messages
               in (messages', countMessageTokens messages'))
         else (messages, inputTokens))"

definition example_log :: "nat \<Rightarrow> unit OllamaMessage list" where
  "example_log n =
     \<lparr>role = System, content = ''You are Ollama Agent CLI'', tool_calls = None, tool_call_id = None\<rparr>
     # map (\<lambda>i. \<lparr>role = (if even i then User else Assistant), content = show_nat i,
                   tool_calls = None, tool_call_id = None\<rparr>) [1..<n]"

lemma summarizeContext_long:
  assumes "length messages > 10"
  shows "summarizeContext messages
    = [messages ! 0, summaryMessage (slice_middle 1 6 messages)] @ slice_last 6 messages"
  using assms by (auto simp: summarizeContext_def slice_middle_def Let_def)

text \<open>
  C4.  When the token estimate is above 15,000 and the log holds more than 10 messages, the
  log after the compaction step is message 0, one assistant message carrying the summary,
  and the last 6 messages as they were: 8 messages, fewer than before (so a log of 12
  becomes a log of 8).  Whatever the length of a non-empty log, \<open>summarizeContext\<close>
  keeps message 0.
\<close>

theorem compaction_shape:
  "(length messages > 10 \<and> countMessageTokens messages > 15000 \<longrightarrow>
      (let after = fst (manageContextSize countMessageTokens messages) in
         after = [messages ! 0, summaryMessage (slice_middle 1 6 messages)]
                 @ drop (length messages - 6) messages
       \<and> after ! 0 = messages ! 0
       \<and> role (after ! 1) = Assistant
       \<and> drop 2 after = drop (length messages - 6) messages
       \<and> length (drop 2 after) = 6
       \<and> length after = 8
       \<and> length after < length messages))
   \<and> (length messages = 12 \<and> countMessageTokens messages > 15000 \<longrightarrow>
        length (fst (manageContextSize countMessageTokens messages)) = 8)
   \<and> (messages \<noteq> [] \<longrightarrow> summarizeContext messages ! 0 = messages ! 0
        \<and> fst (manageContextSize countMessageTokens messages) ! 0 = messages ! 0)"
proof -
  have long: "fst (manageContextSize countMessageTokens messages)
      = [messages ! 0, summaryMessage (slice_middle 1 6 messages)]
        @ drop (length messages - 6) messages"
    if "length messages > 10" "countMessageTokens messages > 15000"
    using that by (simp add: manageContextSize_def Let_def summarizeContext_long slice_last_def)
  have first: "summarizeContext messages ! 0 = messages ! 0"
    by (simp add: summarizeContext_def Let_def)
  have first': "fst (manageContextSize countMessageTokens messages) ! 0 = messages ! 0"
    using first by (simp add: manageContextSize_def Let_def)
  have twelve: "length (fst (manageContextSize countMessageTokens messages)) = 8"
    if "length messages = 12" "countMessageTokens messages > 15000"
    using that long by simp
  show ?thesis
    unfolding Let_def using long first first' twelve
    by (auto simp: summaryMessage_def)
qed

theorem compaction_shape_witness:
  "length (fst (manageContextSize (\<lambda>ms. 20000) (example_log 12))) = 8
   \<and> fst (manageContextSize (\<lambda>ms. 20000) (example_log 12)) ! 0 = example_log 12 ! 0
   \<and> role (fst (manageContextSize (\<lambda>ms. 20000) (example_log 12)) ! 1) = Assistant
   \<and> drop 2 (fst (manageContextSize (\<lambda>ms. 20000) (example_log 12))) = drop 6 (example_log 12)"
proof -
  let ?after = "fst (manageContextSize (\<lambda>ms. 20000) (example_log 12))"
  have len: "length (example_log 12) = 12"
    by (simp add: example_log_def)
  have h: "length (example_log 12) > 10 \<and> (15000::nat) < 20000"
    by (simp add: len)
  have "length ?after = 8 \<and> ?after ! 0 = example_log 12 ! 0 \<and> role (?after ! 1) = Assistant
      \<and> drop 2 ?after = drop (length (example_log 12) - 6) (example_log 12)"
    using compaction_shape [of "example_log 12" "\<lambda>ms. 20000", unfolded Let_def] h
    by blast
  then show ?thesis
    by (simp add: len)
qed

section \<open>Strings and regular expressions of the runtime\<close>

definition dquote :: char where
  "dquote = CHR 0x22"

definition backslash :: char where
  "backslash = CHR 0x5C"

text \<open>
  The characters \<open>\s\<close> matches and \<open>trim\<close> strips, among 8-bit code units: tab, line
  feed, vertical tab, form feed, carriage return, space and no-break space.
\<close>

definition is_space :: "char \<Rightarrow> bool" where
  "is_space c = (c \<in> set [CHR 0x09, CHR 0x0A, CHR 0x0B, CHR 0x0C, CHR 0x0D, CHR 0x20, CHR 0xA0])"

definition not_quote :: "char \<Rightarrow> bool" where
  "not_quote c = (c \<noteq> dquote)"

definition trim :: "string \<Rightarrow> string" where
  "trim s = rev (dropWhile is_space (rev (dropWhile is_space s)))"

definition startsWith :: "string \<Rightarrow> string \<Rightarrow> bool" where
  "startsWith s p = (take (length p) s = p)"

definition endsWith :: "string \<Rightarrow> string \<Rightarrow> bool" where
  "endsWith s p = (length p \<le> length s \<and> drop (length s - length p) s = p)"

text \<open>The prefix of a string up to and including the last occurrence of a character.\<close>

definition upto_last :: "char \<Rightarrow> string \<Rightarrow> string" where
  "upto_last c s = rev (dropWhile (\<lambda>x. x \<noteq> c) (rev s))"

text \<open>
  \<open>s.match(/\{.*\}/s)\<close>: with the \<open>s\<close> flag the dot matches every character, and the
  star is greedy, so the match runs from the first \<open>{\<close> to the last \<open>}\<close> after it.
\<close>

definition match_braces :: "string \<Rightarrow> string option" where
  "match_braces s =
     (case dropWhile (\<lambda>x. x \<noteq> CHR ''{'') s of
        [] \<Rightarrow> None
      | b # body \<Rightarrow> (if CHR ''}'' \<in> set body then Some (b # upto_last CHR ''}'' body) else None))"

text \<open>
  \<open>s.replace(re, f)\<close> for a global regular expression that matches no empty string.  A
  matcher is tried at each position from the left; it gets the character before the
  position (for a lookbehind) and the text from the position on, and answers with the
  captured groups and the length of the match.  The replacement function gets the matched
  text and the groups.  The search goes on right after a match.
\<close>

type_synonym matcher = "char option \<Rightarrow> string \<Rightarrow> (string list \<times> nat) option"

fun regex_replace :: "matcher \<Rightarrow> (string \<Rightarrow> string list \<Rightarrow> string) \<Rightarrow> char option \<Rightarrow> string \<Rightarrow> string" where
  "regex_replace m f prev [] = []"
| "regex_replace m f prev (c # cs) =
     (case m prev (c # cs) of
        None \<Rightarrow> c # regex_replace m f (Some c) cs
      | Some (groups, n) \<Rightarrow>
          f (take n (c # cs)) groups
          @ regex_replace m f (Some (last (c # take (n - 1) cs))) (drop (n - 1) cs))"


text \<open>
  The loop \<open>while ((match = re.exec(s)) !== null)\<close> over a global regular expression
  that matches no empty string: the matches from left to right, each search starting
  where the match before ended.
\<close>

fun regex_exec_all :: "(string \<Rightarrow> ('a \<times> nat) option) \<Rightarrow> string \<Rightarrow> 'a list" where
  "regex_exec_all m [] = []"
| "regex_exec_all m (c # cs) =
     (case m (c # cs) of
        None \<Rightarrow> regex_exec_all m cs
      | Some (x, n) \<Rightarrow> x # regex_exec_all m (drop (n - 1) cs))"

definition expect :: "char \<Rightarrow> string \<Rightarrow> string option" where
  "expect c s = (case s of [] \<Rightarrow> None | x # rest \<Rightarrow> if x = c then Some rest else None)"

text \<open>\<open>[^"]*"\<close>: the text before the next double quote, and the text after that quote.\<close>

definition span_quote :: "string \<Rightarrow> (string \<times> string) option" where
  "span_quote s =
     (case dropWhile not_quote s of
        [] \<Rightarrow> None
      | q # rest \<Rightarrow> Some (takeWhile not_quote s, rest))"

subsection \<open>\<open>fixJsonString\<close>\<close>

text \<open>\<open>value.replace(/(?<!\\)"/g, '\\"')\<close>\<close>

definition unescaped_quote :: matcher where
  "unescaped_quote prev s =
     (case s of
        [] \<Rightarrow> None
      | c # rest \<Rightarrow> if c = dquote \<and> prev \<noteq> Some backslash then Some ([], 1) else None)"

definition escape_quotes :: "string \<Rightarrow> string" where
  "escape_quotes v = regex_replace unescaped_quote (\<lambda>matched groups. [backslash, dquote]) None v"

text \<open>Step 1: \<open>/"([^"]*)"(\s*:\s*)"([^"]*)"/g\<close>\<close>

definition step1_matcher :: matcher where
  "step1_matcher prev s =
     do {
       s1 \<leftarrow> expect dquote s;
       (key, r2) \<leftarrow> span_quote s1;
       r4 \<leftarrow> expect CHR '':'' (dropWhile is_space r2);
       r6 \<leftarrow> expect dquote (dropWhile is_space r4);
       (v, r8) \<leftarrow> span_quote r6;
       Some ([key, takeWhile is_space r2 @ '':'' @ takeWhile is_space r4, v],
             length s - length r8)
     }"

definition step1 :: "string \<Rightarrow> string" where
  "step1 fixed =
     regex_replace step1_matcher
       (\<lambda>matched groups.
          [dquote] @ groups ! 0 @ [dquote] @ groups ! 1 @ [dquote] @ escape_quotes (groups ! 2)
          @ [dquote])
       None fixed"

text \<open>
  \<open>String.prototype.replace\<close> with a string pattern: the first occurrence is replaced,
  and in the replacement text \<open>$$\<close>, \<open>$&\<close>, \<open>$`\<close> and \<open>$'\<close> stand for a dollar
  sign, the matched text, the text before it and the text after it (there are no groups,
  so every other use of \<open>$\<close> is literal).
\<close>

fun find_sub :: "string \<Rightarrow> string \<Rightarrow> nat option" where
  "find_sub pat [] = (if pat = [] then Some 0 else None)"
| "find_sub pat (c # cs) =
     (if take (length pat) (c # cs) = pat then Some 0 else map_option Suc (find_sub pat cs))"

fun expand_dollar :: "string \<Rightarrow> string \<Rightarrow> string \<Rightarrow> string \<Rightarrow> string" where
  "expand_dollar matched left right (d # x # rest) =
     (if d = CHR ''$'' \<and> x = CHR ''$'' then CHR ''$'' # expand_dollar matched left right rest
      else if d = CHR ''$'' \<and> x = CHR ''&'' then matched @ expand_dollar matched left right rest
      else if d = CHR ''$'' \<and> x = CHR ''`'' then left @ expand_dollar matched left right rest
      else if d = CHR ''$'' \<and> x = CHR 0x27 then right @ expand_dollar matched left right rest
      else d # expand_dollar matched left right (x # rest))"
| "expand_dollar matched left right rest = rest"

definition replace_first :: "string \<Rightarrow> string \<Rightarrow> string \<Rightarrow> string" where
  "replace_first s pat replacement =
     (case find_sub pat s of
        None \<Rightarrow> s
      | Some i \<Rightarrow>
          take i s
          @ expand_dollar pat (take i s) (drop (i + length pat) s) replacement
          @ drop (i + length pat) s)"

text \<open>
  Step 2: \<open>/":\s*"([^"]*(?:\\.[^"]*)*)"/g\<close>.  The class \<open>[^"]*\<close> runs up to the next
  double quote, where the closing \<open>"\<close> of the pattern matches at once, so the group
  \<open>(?:\\.[^"]*)*\<close> is matched zero times; without a later double quote nothing matches.
\<close>

definition step2_matcher :: matcher where
  "step2_matcher prev s =
     do {
       s1 \<leftarrow> expect dquote s;
       r1 \<leftarrow> expect CHR '':'' s1;
       r3 \<leftarrow> expect dquote (dropWhile is_space r1);
       (v, r5) \<leftarrow> span_quote r3;
       Some ([v], length s - length r5)
     }"

definition step2 :: "string \<Rightarrow> string" where
  "step2 fixed =
     regex_replace step2_matcher
       (\<lambda>matched groups. replace_first matched (groups ! 0) (escape_quotes (groups ! 0)))
       None fixed"

text \<open>
  Steps 3 and 4: \<open>/(":\s*"[^"]*)\n([^"]*")/g\<close> with the replacement \<open>'$1\\n$2'\<close>, and
  the same for tab and carriage return.  The first \<open>[^"]*\<close> is greedy and must be
  followed by the control character, so it ends at the last one before the next double
  quote.
\<close>

definition control_matcher :: "char \<Rightarrow> matcher" where
  "control_matcher ctl prev s =
     do {
       s1 \<leftarrow> expect dquote s;
       r1 \<leftarrow> expect CHR '':'' s1;
       r3 \<leftarrow> expect dquote (dropWhile is_space r1);
       (seg, r5) \<leftarrow> span_quote r3;
       (if ctl \<in> set seg
        then Some ([take (length s - length r3 + (length (upto_last ctl seg) - 1)) s,
                    drop (length (upto_last ctl seg)) seg @ [dquote]],
                   length s - length r5)
        else None)
     }"

definition escape_control :: "char \<Rightarrow> char \<Rightarrow> string \<Rightarrow> string" where
  "escape_control ctl letter fixed =
     regex_replace (control_matcher ctl)
       (\<lambda>matched groups. groups ! 0 @ [backslash, letter] @ groups ! 1)
       None fixed"

text \<open>Step 5: \<open>/(?<!\\)\\(?!["\\/bfnrt])/g\<close> with the replacement \<open>'\\\\'\<close>\<close>

definition lone_backslash :: matcher where
  "lone_backslash prev s =
     (case s of
        [] \<Rightarrow> None
      | c # rest \<Rightarrow>
          if c = backslash \<and> prev \<noteq> Some backslash
             \<and> (case rest of [] \<Rightarrow> True
                 | x # _ \<Rightarrow> x \<notin> set (dquote # backslash # ''/bfnrt''))
          then Some ([], 1) else None)"

definition step5 :: "string \<Rightarrow> string" where
  "step5 fixed = regex_replace lone_backslash (\<lambda>matched groups. [backslash, backslash]) None fixed"

definition fixJsonString :: "string \<Rightarrow> string" where
  "fixJsonString jsonString =
     step5 (escape_control (CHR 0x0D) CHR ''r'' (escape_control (CHR 0x09) CHR ''t''
       (escape_control (CHR 0x0A) CHR ''n'' (step2 (step1 jsonString)))))"

section \<open>The runtime's \<open>JSON.parse\<close>\<close>

text \<open>
  A recursive-descent reading of the JSON grammar (ECMA-404), used where a concrete
  \<open>JSON.parse\<close> is needed.  The first argument of the three value parsers bounds the
  depth of their calls; every call is made after at least one more character of the text
  has been read, so a bound longer than the text is never exhausted.  An escape
  \<open>\uXXXX\<close> is kept modulo 256, the range of the 8-bit code units.  The message of the
  \<open>SyntaxError\<close> is the engine's own; the model gives it a fixed text.
\<close>

definition json_ws :: "char \<Rightarrow> bool" where
  "json_ws c = (c \<in> set [CHR 0x20, CHR 0x09, CHR 0x0A, CHR 0x0D])"

definition skip_ws :: "string \<Rightarrow> string" where
  "skip_ws s = dropWhile json_ws s"

definition is_digit :: "char \<Rightarrow> bool" where
  "is_digit c = (c \<in> set ''0123456789'')"

definition hex_value :: "char \<Rightarrow> nat option" where
  "hex_value c = map_of (zip ''0123456789abcdefABCDEF''
     [0, 1, 2, 3, 4, 5, 6, 7, 8, 9, 10, 11, 12, 13, 14, 15, 10, 11, 12, 13, 14, 15]) c"

definition hex4 :: "string \<Rightarrow> nat option" where
  "hex4 s =
     (case map hex_value s of
        [Some a, Some b, Some c, Some d] \<Rightarrow> Some (((a * 16 + b) * 16 + c) * 16 + d)
      | _ \<Rightarrow> None)"

definition unescape :: "char \<Rightarrow> char option" where
  "unescape e = map_of
     [(dquote, dquote), (backslash, backslash), (CHR ''/'', CHR ''/''), (CHR ''b'', CHR 0x08),
      (CHR ''f'', CHR 0x0C), (CHR ''n'', CHR 0x0A), (CHR ''r'', CHR 0x0D), (CHR ''t'', CHR 0x09)] e"

text \<open>The characters of a string literal after its opening quote, and the text after it.\<close>

fun parse_string :: "string \<Rightarrow> (string \<times> string) option" where
  "parse_string [] = None"
| "parse_string (c # r) =
     (if c = dquote then Some ([], r)
      else if c = backslash then
        (case r of
           [] \<Rightarrow> None
         | e # r' \<Rightarrow>
             if e = CHR ''u'' then
               (case hex4 (take 4 r') of
                  None \<Rightarrow> None
                | Some n \<Rightarrow> map_option (\<lambda>(cs, rest). (char_of n # cs, rest)) (parse_string (drop 4 r')))
             else
               (case unescape e of
                  None \<Rightarrow> None
                | Some ch \<Rightarrow> map_option (\<lambda>(cs, rest). (ch # cs, rest)) (parse_string r')))
      else if (of_char c :: nat) < 0x20 then None
      else map_option (\<lambda>(cs, rest). (c # cs, rest)) (parse_string r))"

text \<open>A number literal \<open>-?(0|[1-9][0-9]*)(\.[0-9]+)?([eE][+-]?[0-9]+)?\<close> and the text after it.\<close>

definition parse_int_part :: "string \<Rightarrow> (string \<times> string) option" where
  "parse_int_part s =
     (case s of
        [] \<Rightarrow> None
      | c # r \<Rightarrow>
          if c = CHR ''0'' then Some ([c], r)
          else if is_digit c then Some (c # takeWhile is_digit r, dropWhile is_digit r)
          else None)"

definition parse_frac_part :: "string \<Rightarrow> (string \<times> string) option" where
  "parse_frac_part s =
     (case s of
        c # r \<Rightarrow>
          if c = CHR ''.'' then
            (if takeWhile is_digit r = [] then None
             else Some (c # takeWhile is_digit r, dropWhile is_digit r))
          else Some ([], s)
      | [] \<Rightarrow> Some ([], s))"

definition parse_exp_part :: "string \<Rightarrow> (string \<times> string) option" where
  "parse_exp_part s =
     (case s of
        c # r \<Rightarrow>
          if c = CHR ''e'' \<or> c = CHR ''E'' then
            (let sign = (case r of x # _ \<Rightarrow> if x = CHR ''+'' \<or> x = CHR ''-'' then [x] else [] | [] \<Rightarrow> []);
                 r' = drop (length sign) r
             in if takeWhile is_digit r' = [] then None
                else Some (c # sign @ takeWhile is_digit r', dropWhile is_digit r'))
          else Some ([], s)
      | [] \<Rightarrow> Some ([], s))"

definition parse_number :: "string \<Rightarrow> (string \<times> string) option" where
  "parse_number s =
     do {
       let sign = (case s of c # _ \<Rightarrow> if c = CHR ''-'' then [c] else [] | [] \<Rightarrow> []);
       (i, r1) \<leftarrow> parse_int_part (drop (length sign) s);
       (f, r2) \<leftarrow> parse_frac_part r1;
       (e, r3) \<leftarrow> parse_exp_part r2;
       Some (sign @ i @ f @ e, r3)
     }"

text \<open>\<open>CreateDataProperty\<close>: a later member with the same name replaces the value.\<close>

fun parse_value :: "string \<Rightarrow> string \<Rightarrow> (json \<times> string) option"
  and parse_members :: "string \<Rightarrow> (string \<times> json) list \<Rightarrow> string \<Rightarrow> (json \<times> string) option"
  and parse_elements :: "string \<Rightarrow> json list \<Rightarrow> string \<Rightarrow> (json \<times> string) option" where
  "parse_value [] s = None"
| "parse_value (fuel # depth) s =
     (case skip_ws s of
        [] \<Rightarrow> None
      | c # r \<Rightarrow>
          if c = CHR ''{'' then
            (case skip_ws r of
               [] \<Rightarrow> None
             | x # r' \<Rightarrow> if x = CHR ''}'' then Some (JObject [], r')
                         else parse_members depth [] (x # r'))
          else if c = CHR ''['' then
            (case skip_ws r of
               [] \<Rightarrow> None
             | x # r' \<Rightarrow> if x = CHR '']'' then Some (JArray [], r')
                         else parse_elements depth [] (x # r'))
          else if c = dquote then map_option (\<lambda>(cs, rest). (JString cs, rest)) (parse_string r)
          else if startsWith (c # r) ''true'' then Some (JBool True, drop 4 (c # r))
          else if startsWith (c # r) ''false'' then Some (JBool False, drop 5 (c # r))
          else if startsWith (c # r) ''null'' then Some (JNull, drop 4 (c # r))
          else map_option (\<lambda>(lit, rest). (JNumber lit, rest)) (parse_number (c # r)))"
| "parse_members [] acc s = None"
| "parse_members (fuel # depth) acc s =
     (case expect dquote (skip_ws s) of
        None \<Rightarrow> None
      | Some r \<Rightarrow>
          (case parse_string r of
             None \<Rightarrow> None
           | Some (key, r1) \<Rightarrow>
               (case expect CHR '':'' (skip_ws r1) of
                  None \<Rightarrow> None
                | Some r2 \<Rightarrow>
                    (case parse_value depth r2 of
                       None \<Rightarrow> None
                     | Some (v, r3) \<Rightarrow>
                         (case skip_ws r3 of
                            [] \<Rightarrow> None
                          | x # r4 \<Rightarrow>
                              if x = CHR ''}'' then Some (JObject (AList.update key v acc), r4)
                              else if x = CHR '','' then parse_members depth (AList.update key v acc) r4
                              else None)))))"
| "parse_elements [] acc s = None"
| "parse_elements (fuel # depth) acc s =
     (case parse_value depth s of
        None \<Rightarrow> None
      | Some (v, r1) \<Rightarrow>
          (case skip_ws r1 of
             [] \<Rightarrow> None
           | x # r2 \<Rightarrow>
               if x = CHR '']'' then Some (JArray (acc @ [v]), r2)
               else if x = CHR '','' then parse_elements depth (acc @ [v]) r2
               else None))"

definition json_parse :: "string \<Rightarrow> exn + json" where
  "json_parse s =
     (case parse_value (CHR ''.'' # CHR ''.'' # s) s of
        Some (v, rest) \<Rightarrow>
          if skip_ws rest = [] then Inr v else Inl (Error ''Unexpected token in JSON'')
      | None \<Rightarrow> Inl (Error ''Unexpected token in JSON''))"

section \<open>Argument decoder: \<open>safeJsonParse\<close>\<close>

text \<open>
  \<open>result[key] = value\<close> on an object that started as \<open>{}\<close>: the property is added
  after the others or its value replaced; the key \<open>__proto__\<close> is the accessor
  inherited from \<open>Object.prototype\<close> and the assignment creates no own property.
\<close>

definition js_assign :: "string \<Rightarrow> json \<Rightarrow> (string \<times> json) list \<Rightarrow> (string \<times> json) list" where
  "js_assign key v obj = (if key = ''__proto__'' then obj else AList.update key v obj)"

text \<open>
  \<open>keyValuePattern = /"([^"]+)"\s*:\s*(?:"([^"]*)"|([^,}\s]+))/g\<close>: a match gives the
  key and either the string value (second group) or the bare value (third group).  When
  neither alternative matches after the greedy \<open>\s*\<close>, giving back white space does not
  help: the next character would be white space, which neither alternative accepts.
\<close>

definition bare_char :: "char \<Rightarrow> bool" where
  "bare_char c = (c \<noteq> CHR '','' \<and> c \<noteq> CHR ''}'' \<and> \<not> is_space c)"

definition keyValuePattern :: "string \<Rightarrow> ((string \<times> (string + string)) \<times> nat) option" where
  "keyValuePattern s =
     do {
       s1 \<leftarrow> expect dquote s;
       (key, r2) \<leftarrow> span_quote s1;
       r4 \<leftarrow> (if key = [] then None else expect CHR '':'' (dropWhile is_space r2));
       let r5 = dropWhile is_space r4;
       (case do { r6 \<leftarrow> expect dquote r5; span_quote r6 } of
          Some (stringValue, r8) \<Rightarrow> Some ((key, Inl stringValue), length s - length r8)
        | None \<Rightarrow>
            if takeWhile bare_char r5 = [] then None
            else Some ((key, Inr (takeWhile bare_char r5)),
                       length s - length (dropWhile bare_char r5)))
     }"

text \<open>\<open>simplePattern = /"([^"]+)"/g\<close>\<close>

definition simplePattern :: "string \<Rightarrow> (string \<times> nat) option" where
  "simplePattern s =
     do {
       s1 \<leftarrow> expect dquote s;
       (body, rest) \<leftarrow> span_quote s1;
       (if body = [] then None else Some (body, length s - length rest))
     }"

fun pair_up :: "string list \<Rightarrow> (string \<times> json) list \<Rightarrow> (string \<times> json) list" where
  "pair_up (k # v # rest) result = pair_up rest (js_assign k (JString v) result)"
| "pair_up _ result = result"

definition assign_match ::
  "(string \<Rightarrow> exn + json) \<Rightarrow> string \<times> (string + string) \<Rightarrow> (string \<times> json) list \<Rightarrow> (string \<times> json) list" where
  "assign_match parse m result =
     (case m of
        (key, Inl stringValue) \<Rightarrow> js_assign key (JString stringValue) result
      | (key, Inr nonStringValue) \<Rightarrow>
          (case parse nonStringValue of
             Inr parsed \<Rightarrow> js_assign key parsed result
           | Inl _ \<Rightarrow> js_assign key (JString nonStringValue) result))"

text \<open>
  No operation of the body raises (the one \<open>JSON.parse\<close> has a handler of its own), so
  the outer handler of \<open>extractArgumentsManually\<close> is never entered; the function
  still has the type of one that may raise, as its caller treats it.
\<close>

definition extractArgumentsManually :: "(string \<Rightarrow> exn + json) \<Rightarrow> string \<Rightarrow> exn + json" where
  "extractArgumentsManually parse jsonString =
     (let result = fold (assign_match parse) (regex_exec_all keyValuePattern jsonString) [];
          values = regex_exec_all simplePattern jsonString
      in Inr (JObject
           (if length result = 0
            then (if length values \<ge> 2 \<and> length values mod 2 = 0 then pair_up values result
                  else result)
            else result)))"

definition repair :: "string \<Rightarrow> string" where
  "repair jsonString =
     (let fixedJson = trim jsonString;
          fixedJson = (if \<not> startsWith fixedJson ''{'' \<or> \<not> endsWith fixedJson ''}''
                       then (case match_braces fixedJson of Some m \<Rightarrow> m | None \<Rightarrow> fixedJson)
                       else fixedJson)
      in fixJsonString fixedJson)"

definition safeJsonParse :: "(string \<Rightarrow> exn + json) \<Rightarrow> string \<Rightarrow> exn + json" where
  "safeJsonParse parse jsonString =
     (if jsonString = [] then Inr (JObject [])
      else case parse jsonString of
        Inr v \<Rightarrow> Inr v
      | Inl error \<Rightarrow>
          (case parse (repair jsonString) of
             Inr v \<Rightarrow> Inr v
           | Inl secondError \<Rightarrow>
               (case extractArgumentsManually parse jsonString of
                  Inr v \<Rightarrow> Inr v
                | Inl thirdError \<Rightarrow> Inr (JObject []))))"


text \<open>Reading an own property of a value: \<open>undefined\<close> when it has none of that name.\<close>

definition js_own :: "json \<Rightarrow> string \<Rightarrow> json" where
  "js_own v k = (case v of JObject kvs \<Rightarrow> (case map_of kvs k of Some x \<Rightarrow> x | None \<Rightarrow> JUndefined)
                 | _ \<Rightarrow> JUndefined)"

definition is_mapping :: "json \<Rightarrow> bool" where
  "is_mapping v = (case v of JObject kvs \<Rightarrow> True | _ \<Rightarrow> False)"

subsection \<open>Example argument strings\<close>

definition syntax_error :: exn where
  "syntax_error = Error ''Unexpected token in JSON''"

definition unterminated :: string where
  \<open>unterminated = ''{"a": "unterminated''\<close>

definition raw_newline :: string where
  \<open>raw_newline = ''{"path": "a.txt", "content": "line1\<newline>line2"}''\<close>

definition three_tokens :: string where
  \<open>three_tokens = ''"a" "b" "c"''\<close>

definition two_tokens :: string where
  \<open>two_tokens = ''"path" "a.txt"''\<close>

lemma parse_null: "json_parse ''null'' = Inr JNull"
  by code_simp

lemma parse_unterminated:
  "json_parse unterminated = Inl syntax_error" "json_parse (repair unterminated) = Inl syntax_error"
  by code_simp+

lemma parse_raw_newline:
  "json_parse raw_newline = Inl syntax_error"
  "json_parse (repair raw_newline)
     = Inr (JObject [(''path'', JString ''a.txt''), (''content'', JString ''line1\<newline>line2'')])"
  by code_simp+

lemma parse_three_tokens:
  "json_parse three_tokens = Inl syntax_error" "json_parse (repair three_tokens) = Inl syntax_error"
  "regex_exec_all keyValuePattern three_tokens = []"
  "regex_exec_all simplePattern three_tokens = [''a'', ''b'', ''c'']"
  by code_simp+

lemma parse_two_tokens:
  "json_parse two_tokens = Inl syntax_error" "json_parse (repair two_tokens) = Inl syntax_error"
  "regex_exec_all keyValuePattern two_tokens = []"
  "regex_exec_all simplePattern two_tokens = [''path'', ''a.txt'']"
  by code_simp+

lemma parse_word:
  "json_parse ''ls'' = Inl syntax_error" "json_parse (repair ''ls'') = Inl syntax_error"
  "regex_exec_all keyValuePattern ''ls'' = []" "regex_exec_all simplePattern ''ls'' = []"
  by code_simp+

lemma extract_unterminated:
  \<open>extractArgumentsManually json_parse unterminated = Inr (JObject [(''a'', JString ''"unterminated'')])\<close>
  by code_simp

lemma extract_is_mapping: "\<exists>kvs. extractArgumentsManually parse s = Inr (JObject kvs)"
  by (simp add: extractArgumentsManually_def Let_def)

text \<open>
  C2 (as the code has it).  For every string and whatever \<open>JSON.parse\<close> does,
  \<open>safeJsonParse\<close> returns and never raises.  It returns the empty mapping for the empty
  string, the value of the direct parse when that succeeds, else the value parsed from
  the repaired text when that succeeds, and else the mapping built by
  \<open>extractArgumentsManually\<close>, which is empty when neither pattern matches.  A value
  returned by one of the two parses need not be a mapping.
\<close>

theorem decoder_total:
  "(\<exists>v. safeJsonParse parse s = Inr v)
   \<and> (s = [] \<longrightarrow> safeJsonParse parse s = Inr (JObject []))
   \<and> (s \<noteq> [] \<and> parse s = Inr v \<longrightarrow> safeJsonParse parse s = Inr v)
   \<and> (s \<noteq> [] \<and> parse s = Inl e1 \<and> parse (repair s) = Inr v \<longrightarrow> safeJsonParse parse s = Inr v)
   \<and> (s \<noteq> [] \<and> parse s = Inl e1 \<and> parse (repair s) = Inl e2 \<longrightarrow>
        safeJsonParse parse s = extractArgumentsManually parse s
        \<and> (\<exists>kvs. safeJsonParse parse s = Inr (JObject kvs))
        \<and> (regex_exec_all keyValuePattern s = [] \<and> regex_exec_all simplePattern s = []
             \<longrightarrow> safeJsonParse parse s = Inr (JObject [])))"
proof -
  have total: "\<exists>v. safeJsonParse parse s = Inr v"
    by (simp add: safeJsonParse_def split: sum.splits)
  have third: "safeJsonParse parse s = extractArgumentsManually parse s"
    if "s \<noteq> []" "parse s = Inl e1" "parse (repair s) = Inl e2"
    using that extract_is_mapping [of parse s] by (auto simp: safeJsonParse_def)
  have no_match: "extractArgumentsManually parse s = Inr (JObject [])"
    if "regex_exec_all keyValuePattern s = []" "regex_exec_all simplePattern s = []"
    using that by (simp add: extractArgumentsManually_def)
  have first: "safeJsonParse parse s = Inr v" if "s \<noteq> []" "parse s = Inr v"
    using that by (simp add: safeJsonParse_def)
  have second: "safeJsonParse parse s = Inr v"
    if "s \<noteq> []" "parse s = Inl e1" "parse (repair s) = Inr v"
    using that by (simp add: safeJsonParse_def)
  have empty: "safeJsonParse parse [] = Inr (JObject [])"
    by (simp add: safeJsonParse_def)
  have mapping: "\<exists>kvs. safeJsonParse parse s = Inr (JObject kvs)"
    if "s \<noteq> []" "parse s = Inl e1" "parse (repair s) = Inl e2"
    using third [OF that] extract_is_mapping [of parse s] by simp
  have none: "safeJsonParse parse s = Inr (JObject [])"
    if "s \<noteq> []" "parse s = Inl e1" "parse (repair s) = Inl e2"
      "regex_exec_all keyValuePattern s = []" "regex_exec_all simplePattern s = []"
    using third [OF that(1-3)] no_match [OF that(4,5)] by simp
  show ?thesis
    using total empty first second third mapping none by blast
qed

text \<open>
  The text \<open>null\<close> is valid JSON: the direct parse succeeds and its value, which is no
  mapping, is returned.
\<close>

theorem decoder_returns_null:
  "safeJsonParse json_parse ''null'' = Inr JNull \<and> \<not> is_mapping JNull"
  by (simp add: safeJsonParse_def parse_null is_mapping_def)

theorem decoder_total_witness:
  \<open>safeJsonParse json_parse [] = Inr (JObject [])
   \<and> safeJsonParse json_parse ''null'' = Inr JNull
   \<and> safeJsonParse json_parse raw_newline
       = Inr (JObject [(''path'', JString ''a.txt''), (''content'', JString ''line1\<newline>line2'')])
   \<and> safeJsonParse json_parse unterminated = Inr (JObject [(''a'', JString ''"unterminated'')])
   \<and> safeJsonParse json_parse ''ls'' = Inr (JObject [])\<close>
proof -
  have ne: "''null'' \<noteq> []" "raw_newline \<noteq> []" "unterminated \<noteq> []" "''ls'' \<noteq> []"
    by (simp_all add: raw_newline_def unterminated_def)
  have a: "safeJsonParse json_parse [] = Inr (JObject [])"
    using decoder_total [of json_parse "[]" JNull syntax_error syntax_error] by blast
  have b: "safeJsonParse json_parse ''null'' = Inr JNull"
    using decoder_total [of json_parse "''null''" JNull syntax_error syntax_error] ne parse_null
    by blast
  have c: "safeJsonParse json_parse raw_newline
       = Inr (JObject [(''path'', JString ''a.txt''), (''content'', JString ''line1\<newline>line2'')])"
    using decoder_total [of json_parse raw_newline
        "JObject [(''path'', JString ''a.txt''), (''content'', JString ''line1\<newline>line2'')]"
        syntax_error syntax_error] ne parse_raw_newline
    by blast
  have d: "safeJsonParse json_parse unterminated = extractArgumentsManually json_parse unterminated"
    using decoder_total [of json_parse unterminated JNull syntax_error syntax_error] ne
      parse_unterminated
    by blast
  have e: "safeJsonParse json_parse ''ls'' = Inr (JObject [])"
    using decoder_total [of json_parse "''ls''" JNull syntax_error syntax_error] ne parse_word
    by blast
  show ?thesis
    using a b c d e by (simp add: extract_unterminated)
qed

lemma map_of_js_assign:
  "k \<noteq> ''__proto__'' \<Longrightarrow> map_of (js_assign k v r) = (map_of r)(k \<mapsto> v)"
  by (simp add: js_assign_def update_conv')

lemma map_of_js_assign_other:
  "k' \<noteq> k \<Longrightarrow> map_of (js_assign k v r) k' = map_of r k'"
  by (simp add: js_assign_def update_conv')

lemma pair_up_other:
  "\<forall>j. 2 * j < length vals \<longrightarrow> vals ! (2 * j) \<noteq> k \<Longrightarrow> map_of (pair_up vals r) k = map_of r k"
proof (induction vals r rule: pair_up.induct)
  case (1 k0 v0 rest result)
  have "\<forall>j. 2 * j < length rest \<longrightarrow> rest ! (2 * j) \<noteq> k"
  proof (intro allI impI)
    fix j assume "2 * j < length rest"
    then have "2 * Suc j < length (k0 # v0 # rest)" by simp
    with "1.prems" have "(k0 # v0 # rest) ! (2 * Suc j) \<noteq> k" by blast
    then show "rest ! (2 * j) \<noteq> k" by simp
  qed
  moreover from "1.prems" have "k0 \<noteq> k"
    by (metis length_Cons mult_0_right nth_Cons_0 zero_less_Suc)
  ultimately show ?case
    using "1.IH" by (simp add: map_of_js_assign_other)
qed simp_all

lemma pair_up_pairs:
  "2 * i + 1 < length vals \<Longrightarrow> vals ! (2 * i) \<noteq> ''__proto__'' \<Longrightarrow>
   \<forall>j. i < j \<and> 2 * j < length vals \<longrightarrow> vals ! (2 * j) \<noteq> vals ! (2 * i) \<Longrightarrow>
   map_of (pair_up vals r) (vals ! (2 * i)) = Some (JString (vals ! (2 * i + 1)))"
proof (induction vals r arbitrary: i rule: pair_up.induct)
  case (1 k0 v0 rest result)
  show ?case
  proof (cases i)
    case 0
    have "\<forall>j. 2 * j < length rest \<longrightarrow> rest ! (2 * j) \<noteq> k0"
    proof (intro allI impI)
      fix j assume "2 * j < length rest"
      then have "0 < Suc j \<and> 2 * Suc j < length (k0 # v0 # rest)" by simp
      with "1.prems"(3) 0 have "(k0 # v0 # rest) ! (2 * Suc j) \<noteq> (k0 # v0 # rest) ! (2 * 0)"
        by blast
      then show "rest ! (2 * j) \<noteq> k0" by simp
    qed
    then have "map_of (pair_up rest (js_assign k0 (JString v0) result)) k0
        = map_of (js_assign k0 (JString v0) result) k0"
      by (rule pair_up_other)
    with 0 "1.prems"(2) show ?thesis
      by (simp add: map_of_js_assign)
  next
    case (Suc i')
    have a: "2 * i' + 1 < length rest"
      using "1.prems"(1) Suc by simp
    have b: "rest ! (2 * i') \<noteq> ''__proto__''"
      using "1.prems"(2) Suc by simp
    have c: "\<forall>j. i' < j \<and> 2 * j < length rest \<longrightarrow> rest ! (2 * j) \<noteq> rest ! (2 * i')"
    proof (intro allI impI)
      fix j assume "i' < j \<and> 2 * j < length rest"
      then have "i < Suc j \<and> 2 * Suc j < length (k0 # v0 # rest)" using Suc by simp
      with "1.prems"(3) have "(k0 # v0 # rest) ! (2 * Suc j) \<noteq> (k0 # v0 # rest) ! (2 * i)"
        by blast
      then show "rest ! (2 * j) \<noteq> rest ! (2 * i')" using Suc by simp
    qed
    from "1.IH" [OF a b c] Suc show ?thesis by simp
  qed
qed simp_all

text \<open>
  C9 (as the code has it).  When both parses fail and the key/value pattern matches
  nowhere, the quoted tokens are paired up only if there are at least two of them and
  their number is even: then the assignments \<open>result[token 2i] = token 2i+1\<close> are made in
  order, so that token \<open>2i\<close> maps to token \<open>2i+1\<close> unless the same key comes again at a
  later even position (or the key is \<open>__proto__\<close>).  With fewer than two tokens or an odd
  number of them the result is the empty mapping.
\<close>

theorem positional_pairing:
  "s \<noteq> [] \<and> parse s = Inl e1 \<and> parse (repair s) = Inl e2
     \<and> regex_exec_all keyValuePattern s = [] \<longrightarrow>
   (let tokens = regex_exec_all simplePattern s in
      (length tokens \<ge> 2 \<and> even (length tokens) \<longrightarrow>
         safeJsonParse parse s = Inr (JObject (pair_up tokens []))
         \<and> (\<forall>i. 2 * i + 1 < length tokens \<and> tokens ! (2 * i) \<noteq> ''__proto__''
               \<and> (\<forall>j. i < j \<and> 2 * j < length tokens \<longrightarrow> tokens ! (2 * j) \<noteq> tokens ! (2 * i))
               \<longrightarrow> js_own (JObject (pair_up tokens [])) (tokens ! (2 * i))
                   = JString (tokens ! (2 * i + 1))))
    \<and> (length tokens < 2 \<or> odd (length tokens) \<longrightarrow> safeJsonParse parse s = Inr (JObject [])))"
proof (intro impI, elim conjE)
  assume h: "s \<noteq> []" "parse s = Inl e1" "parse (repair s) = Inl e2"
    "regex_exec_all keyValuePattern s = []"
  let ?tokens = "regex_exec_all simplePattern s"
  have r: "safeJsonParse parse s = Inr (JObject
      (if length ?tokens \<ge> 2 \<and> length ?tokens mod 2 = 0 then pair_up ?tokens [] else []))"
    using h by (simp add: safeJsonParse_def extractArgumentsManually_def Let_def)
  have p: "js_own (JObject (pair_up ?tokens [])) (?tokens ! (2 * i)) = JString (?tokens ! (2 * i + 1))"
    if "2 * i + 1 < length ?tokens" "?tokens ! (2 * i) \<noteq> ''__proto__''"
      "\<forall>j. i < j \<and> 2 * j < length ?tokens \<longrightarrow> ?tokens ! (2 * j) \<noteq> ?tokens ! (2 * i)" for i
    using pair_up_pairs [OF that, of "[]"] by (simp add: js_own_def)
  show "let tokens = ?tokens in
      (length tokens \<ge> 2 \<and> even (length tokens) \<longrightarrow>
         safeJsonParse parse s = Inr (JObject (pair_up tokens []))
         \<and> (\<forall>i. 2 * i + 1 < length tokens \<and> tokens ! (2 * i) \<noteq> ''__proto__''
               \<and> (\<forall>j. i < j \<and> 2 * j < length tokens \<longrightarrow> tokens ! (2 * j) \<noteq> tokens ! (2 * i))
               \<longrightarrow> js_own (JObject (pair_up tokens [])) (tokens ! (2 * i))
                   = JString (tokens ! (2 * i + 1))))
    \<and> (length tokens < 2 \<or> odd (length tokens) \<longrightarrow> safeJsonParse parse s = Inr (JObject []))"
    unfolding Let_def using r p by (auto simp: even_iff_mod_2_eq_zero)
qed

text \<open>Three quoted tokens, no colon: nothing is paired, the first token maps to nothing.\<close>

theorem odd_tokens_not_paired:
  "three_tokens \<noteq> [] \<and> json_parse three_tokens = Inl syntax_error
   \<and> json_parse (repair three_tokens) = Inl syntax_error
   \<and> regex_exec_all keyValuePattern three_tokens = []
   \<and> regex_exec_all simplePattern three_tokens = [''a'', ''b'', ''c'']
   \<and> safeJsonParse json_parse three_tokens = Inr (JObject [])
   \<and> js_own (JObject []) ''a'' \<noteq> JString ''b''"
  by (simp add: parse_three_tokens safeJsonParse_def extractArgumentsManually_def js_own_def)
     (simp add: three_tokens_def)

theorem positional_pairing_witness:
  "safeJsonParse json_parse two_tokens = Inr (JObject [(''path'', JString ''a.txt'')])
   \<and> js_own (JObject [(''path'', JString ''a.txt'')]) ''path'' = JString ''a.txt''
   \<and> safeJsonParse json_parse three_tokens = Inr (JObject [])"
proof -
  have ne: "two_tokens \<noteq> []" "three_tokens \<noteq> []"
    by (simp_all add: two_tokens_def three_tokens_def)
  have p: "pair_up [''path'', ''a.txt''] [] = [(''path'', JString ''a.txt'')]"
    by (simp add: js_assign_def)
  note T = positional_pairing [of two_tokens json_parse syntax_error syntax_error,
      unfolded Let_def parse_two_tokens]
  have len: "length [''path'', ''a.txt''] \<ge> 2 \<and> even (length [''path'', ''a.txt''])"
    by simp
  have a: "safeJsonParse json_parse two_tokens = Inr (JObject (pair_up [''path'', ''a.txt''] []))"
    using T ne parse_two_tokens len by blast
  have "\<forall>i. 2 * i + 1 < length [''path'', ''a.txt''] \<and> [''path'', ''a.txt''] ! (2 * i) \<noteq> ''__proto__''
               \<and> (\<forall>j. i < j \<and> 2 * j < length [''path'', ''a.txt''] \<longrightarrow> [''path'', ''a.txt''] ! (2 * j) \<noteq> [''path'', ''a.txt''] ! (2 * i))
               \<longrightarrow> js_own (JObject (pair_up [''path'', ''a.txt''] [])) ([''path'', ''a.txt''] ! (2 * i))
                   = JString ([''path'', ''a.txt''] ! (2 * i + 1))"
    using T ne parse_two_tokens len by blast
  then have b: "js_own (JObject (pair_up [''path'', ''a.txt''] [])) ''path'' = JString ''a.txt''"
    by (drule_tac x = 0 in spec) simp
  note U = positional_pairing [of three_tokens json_parse syntax_error syntax_error,
      unfolded Let_def parse_three_tokens]
  have "length [''a'', ''b'', ''c''] < 2 \<or> odd (length [''a'', ''b'', ''c''])"
    by simp
  then have c: "safeJsonParse json_parse three_tokens = Inr (JObject [])"
    using U ne parse_three_tokens by blast
  show ?thesis
    using a b c unfolding p by simp
qed


section \<open>Stream aggregator: \<open>messageReducer\<close>\<close>

text \<open>
  The own enumerable properties of a value, as the spread \<open>{...acc}\<close> and
  \<open>Object.entries\<close> list them: the members of an object, the elements of an array and
  the characters of a string under their indices, nothing for other values.
  \<open>Object.entries\<close> raises a \<open>TypeError\<close> on \<open>undefined\<close> and \<open>null\<close>.
\<close>

fun index_entries :: "nat \<Rightarrow> json list \<Rightarrow> (string \<times> json) list" where
  "index_entries i [] = []"
| "index_entries i (x # xs) = (show_nat i, x) # index_entries (Suc i) xs"

fun js_spread :: "json \<Rightarrow> (string \<times> json) list" where
  "js_spread (JObject kvs) = kvs"
| "js_spread (JArray xs) = index_entries 0 xs"
| "js_spread (JString s) = index_entries 0 (map (\<lambda>c. JString [c]) s)"
| "js_spread _ = []"

definition type_error :: exn where
  "type_error = Error ''Cannot convert undefined or null to object''"

text \<open>\<open>typeof v === "object"\<close>, and the names every object inherits from \<open>Object.prototype\<close>.\<close>

fun typeof_object :: "json \<Rightarrow> bool" where
  "typeof_object JNull = True"
| "typeof_object (JArray _) = True"
| "typeof_object (JObject _) = True"
| "typeof_object _ = False"

definition Object_prototype_names :: "string list" where
  "Object_prototype_names =
     [''constructor'', ''hasOwnProperty'', ''isPrototypeOf'', ''propertyIsEnumerable'',
      ''toLocaleString'', ''toString'', ''valueOf'', ''__defineGetter__'', ''__defineSetter__'',
      ''__lookupGetter__'', ''__lookupSetter__'', ''__proto__'']"

text \<open>
  \<open>acc[key] = value\<close> followed by the clean-up of the first branch: when the value is an
  array, \<open>delete arr.index\<close> for each of its elements (a \<open>TypeError\<close> on an element that
  is \<open>undefined\<close> or \<open>null\<close>).
\<close>

fun delete_index :: "json \<Rightarrow> exn + json" where
  "delete_index JUndefined = Inl type_error"
| "delete_index JNull = Inl type_error"
| "delete_index (JObject kvs) = Inr (JObject (AList.delete ''index'' kvs))"
| "delete_index v = Inr v"

fun delete_indices :: "json list \<Rightarrow> exn + json list" where
  "delete_indices [] = Inr []"
| "delete_indices (x # xs) =
     (case delete_index x of
        Inl e \<Rightarrow> Inl e
      | Inr x' \<Rightarrow> (case delete_indices xs of Inl e \<Rightarrow> Inl e | Inr xs' \<Rightarrow> Inr (x' # xs')))"

definition set_first :: "(string \<times> json) list \<Rightarrow> string \<Rightarrow> json \<Rightarrow> exn + (string \<times> json) list" where
  "set_first acc key v =
     (case v of
        JArray xs \<Rightarrow>
          (case delete_indices xs of
             Inl e \<Rightarrow> Inl e
           | Inr xs' \<Rightarrow> Inr (AList.update key (JArray xs') acc))
      | _ \<Rightarrow> Inr (AList.update key v acc))"

text \<open>
  The body of the loop for a string value (the entries of a string delta): only the
  first two branches can apply.
\<close>

definition string_field :: "(string \<times> json) list \<Rightarrow> string \<times> json \<Rightarrow> (string \<times> json) list" where
  "string_field acc kv =
     (case kv of (key, v) \<Rightarrow>
        (case map_of acc key of
           None \<Rightarrow> if key \<in> set Object_prototype_names then acc else AList.update key v acc
         | Some cur \<Rightarrow>
             if cur = JUndefined \<or> cur = JNull then AList.update key v acc
             else (case (cur, v) of
                     (JString a, JString b) \<Rightarrow> AList.update key (JString (a @ b)) acc
                   | _ \<Rightarrow> acc)))"

text \<open>\<open>typeof v === "string"\<close>, \<open>Array.isArray(v)\<close>, and what such values hold.\<close>

fun is_string :: "json \<Rightarrow> bool" where
  "is_string (JString _) = True"
| "is_string _ = False"

fun isArray :: "json \<Rightarrow> bool" where
  "isArray (JArray _) = True"
| "isArray _ = False"

fun characters :: "json \<Rightarrow> string" where
  "characters (JString s) = s"
| "characters _ = []"

fun elements :: "json \<Rightarrow> json list" where
  "elements (JArray xs) = xs"
| "elements _ = []"

text \<open>A measure of the nesting of a value, for the termination of \<open>reduce\<close>.\<close>

fun jsize :: "json \<Rightarrow> nat" where
  "jsize (JArray xs) = Suc (sum_list (map jsize xs) + length xs)"
| "jsize (JObject es) = Suc (sum_list (map (\<lambda>e. jsize (snd e)) es) + length es)"
| "jsize _ = 0"

lemma jsize_elements: "sum_list (map jsize (elements v)) + length (elements v) \<le> jsize v"
  by (cases v) simp_all

lemma jsize_index_entries:
  "sum_list (map (\<lambda>e. jsize (snd e)) (index_entries i xs)) = sum_list (map jsize xs)"
  "length (index_entries i xs) = length xs"
  by (induction xs arbitrary: i) simp_all

lemma jsize_spread:
  "\<not> is_string v \<Longrightarrow>
   sum_list (map (\<lambda>e. jsize (snd e)) (js_spread v)) + length (js_spread v) \<le> jsize v"
  by (cases v) (simp_all add: jsize_index_entries)

text \<open>
  \<open>reduce\<close>.  \<open>reduce_entries\<close> is the loop \<open>for (const [key, value] of
  Object.entries(delta))\<close>, \<open>reduce_field\<close> its body and \<open>merge_array\<close> the loop of the
  third branch.  A property the copy of the accumulator does not own is looked up in
  \<open>Object.prototype\<close>: for its method names the value found is a function and no branch
  applies; for \<open>__proto__\<close> it is an object, so the fourth branch replaces the prototype,
  which adds no own property (what the new prototype makes visible to later lookups of
  the same call is not modelled).
\<close>

function reduce :: "json \<Rightarrow> json \<Rightarrow> exn + json"
  and reduce_entries :: "(string \<times> json) list \<Rightarrow> (string \<times> json) list \<Rightarrow> exn + (string \<times> json) list"
  and merge_array :: "json list \<Rightarrow> json list \<Rightarrow> exn + json list"
  and reduce_field :: "(string \<times> json) list \<Rightarrow> string \<Rightarrow> json \<Rightarrow> exn + (string \<times> json) list" where
  "reduce acc delta =
     (if delta = JUndefined \<or> delta = JNull then Inl type_error
      else if is_string delta
      then Inr (JObject (fold (\<lambda>kv a. string_field a kv) (js_spread delta) (js_spread acc)))
      else map_sum id JObject (reduce_entries (js_spread acc) (js_spread delta)))"
| "reduce_entries acc [] = Inr acc"
| "reduce_entries acc (kv # es) =
     (case reduce_field acc (fst kv) (snd kv) of
        Inl e \<Rightarrow> Inl e
      | Inr acc' \<Rightarrow> reduce_entries acc' es)"
| "merge_array accArray [] = Inr accArray"
| "merge_array [] (v # vs) =
     (case reduce (JObject []) v of
        Inl e \<Rightarrow> Inl e
      | Inr r \<Rightarrow> (case merge_array [] vs of Inl e \<Rightarrow> Inl e | Inr rs \<Rightarrow> Inr (r # rs)))"
| "merge_array (a # as) (v # vs) =
     (case reduce (if js_truthy a then a else JObject []) v of
        Inl e \<Rightarrow> Inl e
      | Inr r \<Rightarrow> (case merge_array as vs of Inl e \<Rightarrow> Inl e | Inr rs \<Rightarrow> Inr (r # rs)))"
| "reduce_field acc key v =
     (case map_of acc key of
        None \<Rightarrow>
          if key = ''__proto__'' then
            (if typeof_object v
             then (case reduce (JObject []) v of Inl e \<Rightarrow> Inl e | Inr proto \<Rightarrow> Inr acc)
             else Inr acc)
          else if key \<in> set Object_prototype_names then Inr acc
          else set_first acc key v
      | Some cur \<Rightarrow>
          if cur = JUndefined \<or> cur = JNull then set_first acc key v
          else if is_string cur \<and> is_string v
          then Inr (AList.update key (JString (characters cur @ characters v)) acc)
          else if isArray cur \<and> isArray v
          then (case merge_array (elements cur) (elements v) of
                  Inl e \<Rightarrow> Inl e
                | Inr merged \<Rightarrow> Inr (AList.update key (JArray merged) acc))
          else if typeof_object cur \<and> typeof_object v
          then (case reduce cur v of
                  Inl e \<Rightarrow> Inl e
                | Inr r \<Rightarrow> Inr (AList.update key r acc))
          else Inr acc)"
  by pat_completeness auto
termination
proof (relation "measure (\<lambda>x. case x of
      Inl (Inl (acc, delta)) \<Rightarrow> 3 * jsize delta + 1
    | Inl (Inr (acc, es)) \<Rightarrow> 3 * (sum_list (map (\<lambda>e. jsize (snd e)) es) + length es)
    | Inr (Inl (accArray, vs)) \<Rightarrow> 3 * (sum_list (map jsize vs) + length vs)
    | Inr (Inr field) \<Rightarrow> 3 * jsize (snd (snd field)) + 2)", goal_cases)
  case (2 acc delta)
  then show ?case
    using jsize_spread [of delta] by simp
next
  case (10 acc key v cur)
  then show ?case
    using jsize_elements [of v] by simp
qed simp_all


declare reduce.simps [simp del] reduce_field.simps [simp del]












text \<open>
  A fragment as \<open>chatStream\<close> yields it: \<open>{choices: [{delta: {content, tool_calls},
  finish_reason}]}\<close>, where \<open>content\<close> is a string (empty when the server sent none)
  and \<open>tool_calls\<close> is the array the server sent (\<open>undefined\<close> when it sent none).
\<close>

record delta =
  delta_content :: string
  delta_tool_calls :: "json list option"

record choice =
  choice_delta :: "delta option"
  finish_reason :: "string option"

record chunk =
  chunk_choices :: "choice list"

definition delta_json :: "delta \<Rightarrow> json" where
  "delta_json d =
     JObject [(''content'', JString (delta_content d)),
              (''tool_calls'', (case delta_tool_calls d of None \<Rightarrow> JUndefined | Some xs \<Rightarrow> JArray xs))]"

definition messageReducer :: "json \<Rightarrow> chunk \<Rightarrow> exn + json" where
  "messageReducer previous item =
     reduce previous
       (case chunk_choices item of
          [] \<Rightarrow> JObject []
        | c # _ \<Rightarrow> (case choice_delta c of None \<Rightarrow> JObject [] | Some d \<Rightarrow> delta_json d))"



subsection \<open>Example deltas\<close>




definition chunk_of :: "string \<Rightarrow> json list option \<Rightarrow> chunk" where
  "chunk_of text calls =
     \<lparr>chunk_choices = [\<lparr>choice_delta = Some \<lparr>delta_content = text, delta_tool_calls = calls\<rparr>,
                        finish_reason = None\<rparr>]\<rparr>"













section \<open>Tool dispatch: \<open>executeTool\<close>\<close>

record ToolResult =
  tr_success :: bool
  tr_output :: "string option"
  tr_error :: "string option"

datatype mcp_item = TextItem string | ResourceItem "string option" | OtherItem string

record mcp_result =
  isError :: bool
  mcp_content :: "mcp_item list"

text \<open>
  The collaborators of the agent.  The functions that act on the world outside take a
  time stamp, the number of interactions made before, so that their answers may differ
  from call to call: \<open>aborted k\<close> is the abort flag at the \<open>k\<close>-th interaction, \<open>tool\<close>
  runs a method of a built-in tool object on its arguments and \<open>callTool\<close> is the MCP
  manager's.  \<open>chatStream r\<close> is the stream of round \<open>r\<close>: the fragments it yields and the
  exception that ends it, if one does.  \<open>parseToolCallsFromContent\<close> is kept abstract (the
  ids it makes are random); it returns an array and does not raise.
\<close>

record agent_env = runtime +
  aborted :: "nat \<Rightarrow> bool"
  getAllOllamaTools :: "nat \<Rightarrow> exn + OllamaTool list"
  chatStream :: "nat \<Rightarrow> (json list) OllamaMessage list \<Rightarrow> OllamaTool list \<Rightarrow> chunk list \<times> exn option"
  parseToolCallsFromContent :: "nat \<Rightarrow> json \<Rightarrow> json list"
  countMessageTokens :: "(json list) OllamaMessage list \<Rightarrow> nat"
  estimateStreamingTokens :: "string \<Rightarrow> nat"
  countTokens :: "string \<Rightarrow> nat"
  tool :: "nat \<Rightarrow> string \<Rightarrow> json list \<Rightarrow> exn + ToolResult"
  callTool :: "nat \<Rightarrow> string \<Rightarrow> json \<Rightarrow> exn + mcp_result"

text \<open>What a call of \<open>executeTool\<close> asked of the outside world.\<close>

datatype dispatch = Builtin string "json list" | MCP string json

text \<open>
  Property reads.  \<open>v.k\<close> raises a \<open>TypeError\<close> when \<open>v\<close> is \<open>undefined\<close> or \<open>null\<close>;
  else it is the own property, the \<open>length\<close> of an array or string, or \<open>undefined\<close>
  (inherited methods are not values of the model).  \<open>v?.k\<close> is \<open>undefined\<close> instead of
  raising.
\<close>

definition cannot_read :: "string \<Rightarrow> exn" where
  "cannot_read k = Error (''Cannot read properties of undefined (reading '' @ [CHR 0x27] @ k @ [CHR 0x27] @ '')'')"

definition js_prop :: "json \<Rightarrow> string \<Rightarrow> json" where
  "js_prop v k =
     (case map_of (js_spread v) k of
        Some x \<Rightarrow> x
      | None \<Rightarrow> if k = ''length'' \<and> (isArray v \<or> is_string v)
                then JNumber (show_nat (length (js_spread v))) else JUndefined)"

definition js_get :: "json \<Rightarrow> string \<Rightarrow> exn + json" where
  "js_get v k = (if v = JUndefined \<or> v = JNull then Inl (cannot_read k) else Inr (js_prop v k))"

definition js_get_opt :: "json \<Rightarrow> string \<Rightarrow> json" where
  "js_get_opt v k = (if v = JUndefined \<or> v = JNull then JUndefined else js_prop v k)"

text \<open>\<open>String(v)\<close>, as a template literal and \<open>JSON.parse\<close> convert their argument.\<close>

fun js_toString :: "json \<Rightarrow> string" where
  "js_toString JUndefined = ''undefined''"
| "js_toString JNull = ''null''"
| "js_toString (JBool b) = (if b then ''true'' else ''false'')"
| "js_toString (JNumber lit) = lit"
| "js_toString (JString s) = s"
| "js_toString (JArray xs) =
     join '','' (map (\<lambda>x. if x = JUndefined \<or> x = JNull then [] else js_toString x) xs)"
| "js_toString (JObject kvs) = ''[object Object]''"

definition sequence_exn :: "(exn + 'a) list \<Rightarrow> exn + 'a list" where
  "sequence_exn xs =
     foldr (\<lambda>x rest. case x of Inl e \<Rightarrow> Inl e
                       | Inr v \<Rightarrow> (case rest of Inl e \<Rightarrow> Inl e | Inr vs \<Rightarrow> Inr (v # vs)))
       xs (Inr [])"

text \<open>
  A call of a method of a built-in tool: the argument expressions are evaluated from the
  left (one may raise), then the method runs.
\<close>

definition invoke ::
  "agent_env \<Rightarrow> nat \<Rightarrow> string \<Rightarrow> (exn + json) list \<Rightarrow> (exn + ToolResult) \<times> dispatch list" where
  "invoke env t method args =
     (case sequence_exn args of
        Inl e \<Rightarrow> (Inl e, [])
      | Inr argv \<Rightarrow> (tool env t method argv, [Builtin method argv]))"

definition failure :: "string \<Rightarrow> ToolResult" where
  "failure msg = \<lparr>tr_success = False, tr_output = None, tr_error = Some msg\<rparr>"

definition mcp_item_text :: "mcp_item \<Rightarrow> string" where
  "mcp_item_text item =
     (case item of
        TextItem t \<Rightarrow> t
      | ResourceItem uri \<Rightarrow>
          ''Resource: '' @ (case uri of Some u \<Rightarrow> (if u \<noteq> [] then u else ''Unknown'')
                                     | None \<Rightarrow> ''Unknown'')
      | OtherItem s \<Rightarrow> s)"

definition executeMCPTool :: "agent_env \<Rightarrow> nat \<Rightarrow> json \<Rightarrow> ToolResult \<times> dispatch list" where
  "executeMCPTool env t toolCall =
     (case (case js_get toolCall ''function'' of
              Inl e \<Rightarrow> Inl e
            | Inr fn \<Rightarrow>
                (case js_get fn ''arguments'' of
                   Inl e \<Rightarrow> Inl e
                 | Inr raw \<Rightarrow>
                     (case JSON_parse env (js_toString raw) of
                        Inl e \<Rightarrow> Inl e
                      | Inr args \<Rightarrow> Inr (js_toString (js_prop fn ''name''), args)))) of
        Inl e \<Rightarrow> (failure (''MCP tool execution error: '' @ message e), [])
      | Inr (name, args) \<Rightarrow>
          (case callTool env t name args of
             Inl e \<Rightarrow> (failure (''MCP tool execution error: '' @ message e), [MCP name args])
           | Inr result \<Rightarrow>
               (if isError result
                then failure (case mcp_content result of
                                TextItem txt # _ \<Rightarrow> (if txt \<noteq> [] then txt else ''MCP tool error'')
                              | _ \<Rightarrow> ''MCP tool error'')
                else (let out = join [newline] (map mcp_item_text (mcp_content result))
                      in \<lparr>tr_success = True,
                          tr_output = Some (if out \<noteq> [] then out else ''Success''),
                          tr_error = None\<rparr>),
                [MCP name args])))"

definition invalid_parameter :: "agent_env \<Rightarrow> string \<Rightarrow> string \<Rightarrow> json \<Rightarrow> ToolResult" where
  "invalid_parameter env what label args =
     failure (''Invalid '' @ what @ '' parameter: '' @ JSON_stringify env (js_get_opt args what)
              @ ''. '' @ label @ '' must be a non-empty string.'')"

definition missing_string :: "json \<Rightarrow> string \<Rightarrow> bool" where
  "missing_string args k =
     (\<not> js_truthy args \<or> \<not> js_truthy (js_prop args k) \<or> \<not> is_string (js_prop args k)
      \<or> trim (characters (js_prop args k)) = [])"

definition search_options :: "json \<Rightarrow> json" where
  "search_options args =
     JObject [(''searchType'', js_prop args ''search_type''),
              (''includePattern'', js_prop args ''include_pattern''),
              (''excludePattern'', js_prop args ''exclude_pattern''),
              (''caseSensitive'', js_prop args ''case_sensitive''),
              (''wholeWord'', js_prop args ''whole_word''),
              (''regex'', js_prop args ''regex''),
              (''maxResults'', js_prop args ''max_results''),
              (''fileTypes'', js_prop args ''file_types''),
              (''includeHidden'', js_prop args ''include_hidden'')]"

text \<open>
  The body of the \<open>try\<close> block of \<open>executeTool\<close>, and \<open>executeTool\<close> with its handler.
  \<open>safeJsonParse\<close> returns \<open>{}\<close> for an argument that is not a string.
\<close>

definition executeTool_try ::
  "agent_env \<Rightarrow> nat \<Rightarrow> json \<Rightarrow> (exn + ToolResult) \<times> dispatch list" where
  "executeTool_try env t toolCall =
     (case js_get toolCall ''function'' of
        Inl e \<Rightarrow> (Inl e, [])
      | Inr fn \<Rightarrow>
     (case js_get fn ''arguments'' of
        Inl e \<Rightarrow> (Inl e, [])
      | Inr raw \<Rightarrow>
     (case (if is_string raw then safeJsonParse (JSON_parse env) (characters raw)
            else Inr (JObject [])) of
        Inl e \<Rightarrow> (Inl e, [])
      | Inr args \<Rightarrow>
     (let name = js_prop fn ''name'' in
      if name = JString ''view_file'' then
        (if missing_string args ''path'' then (Inr (invalid_parameter env ''path'' ''Path'' args), [])
         else invoke env t ''textEditor.view''
                [Inr (js_prop args ''path''),
                 Inr (if js_truthy (js_prop args ''start_line'') \<and> js_truthy (js_prop args ''end_line'')
                      then JArray [js_prop args ''start_line'', js_prop args ''end_line'']
                      else JUndefined)])
      else if name = JString ''create_file'' then
        invoke env t ''textEditor.create'' [js_get args ''path'', js_get args ''content'']
      else if name = JString ''str_replace_editor'' then
        invoke env t ''textEditor.strReplace''
          [js_get args ''path'', js_get args ''old_str'', js_get args ''new_str'',
           js_get args ''replace_all'']
      else if name = JString ''bash'' then
        invoke env t ''bash.execute'' [js_get args ''command'']
      else if name = JString ''create_todo_list'' then
        invoke env t ''todoTool.createTodoList'' [js_get args ''todos'']
      else if name = JString ''update_todo_list'' then
        invoke env t ''todoTool.updateTodoList'' [js_get args ''updates'']
      else if name = JString ''search'' then
        (if missing_string args ''query'' then (Inr (invalid_parameter env ''query'' ''Query'' args), [])
         else invoke env t ''search.search'' [Inr (js_prop args ''query''), Inr (search_options args)])
      else if is_string name then
        (if startsWith (characters name) ''mcp__'' then
           (case executeMCPTool env t toolCall of (r, calls) \<Rightarrow> (Inr r, calls))
         else (Inr (failure (''Unknown tool: '' @ characters name)), []))
      else if name = JUndefined \<or> name = JNull then (Inl (cannot_read ''startsWith''), [])
      else (Inl (Error ''toolCall.function.name.startsWith is not a function''), [])))))"

definition executeTool :: "agent_env \<Rightarrow> nat \<Rightarrow> json \<Rightarrow> ToolResult \<times> dispatch list" where
  "executeTool env t toolCall =
     (case executeTool_try env t toolCall of
        (Inr r, calls) \<Rightarrow> (r, calls)
      | (Inl e, calls) \<Rightarrow> (failure (''Tool execution error: '' @ message e), calls))"




section \<open>Agent loop: \<open>processUserMessageStream\<close>\<close>

datatype StreamingChunk =
    Content string
  | ToolCalls "json list"
  | ToolResultChunk json ToolResult
  | Done
  | TokenCount nat

text \<open>
  What a run of the generator does, in order: the chunks it yields; the start of a round
  (the log line \<open>Starting tool round n/50\<close>); a read of the abort flag with the value
  read; a fragment received from the stream; a fragment consumed (merged into the
  accumulated message and forwarded); a tool invocation executed.
\<close>

datatype event =
    Yield StreamingChunk
  | StartRound nat
  | Checked bool
  | Received chunk
  | Consumed chunk
  | Executed json

text \<open>
  The message log of the agent, the number of interactions with the outside world made so
  far, and the local variables of the generator other than \<open>toolRounds\<close>.  The chat
  history shown in the terminal and the log lines are left out.
\<close>

record agent_state =
  st_messages :: "(json list) OllamaMessage list"
  st_clock :: nat
  inputTokens :: nat
  totalOutputTokens :: nat
  accumulatedMessage :: json
  accumulatedContent :: string
  toolCallsYielded :: bool

text \<open>
  How a part of the generator ends: it runs to its end, the generator returns from inside
  it, or an exception leaves it.
\<close>

datatype outcome = Normal agent_state | Returned agent_state | Thrown exn agent_state

definition maxToolRounds :: nat where
  "maxToolRounds = 50"

definition cancel_notice :: string where
  "cancel_notice = [newline, newline] @ ''[Operation cancelled by user]''"

definition limit_notice :: string where
  "limit_notice = [newline, newline]
     @ ''Maximum tool execution rounds reached. Stopping to prevent infinite loops.''"

definition cancelled :: "event list" where
  "cancelled = [Checked True, Yield (Content cancel_notice), Yield Done]"

definition tick :: "agent_state \<Rightarrow> agent_state" where
  "tick st = st\<lparr>st_clock := Suc (st_clock st)\<rparr>"

text \<open>\<open>accumulatedMessage.tool_calls\<close>: an array, or \<open>undefined\<close> (no elements).\<close>

definition tool_calls_of :: "json \<Rightarrow> json list" where
  "tool_calls_of acc = elements (js_prop acc ''tool_calls'')"

text \<open>\<open>tool_calls.some(tc => tc.function?.name)\<close>\<close>

fun some_named :: "json list \<Rightarrow> exn + bool" where
  "some_named [] = Inr False"
| "some_named (tc # rest) =
     (case js_get tc ''function'' of
        Inl e \<Rightarrow> Inl e
      | Inr fn \<Rightarrow> if js_truthy (js_get_opt fn ''name'') then Inr True else some_named rest)"

definition chunk_text :: "chunk \<Rightarrow> string" where
  "chunk_text c =
     (case chunk_choices c of
        [] \<Rightarrow> []
      | ch # _ \<Rightarrow> (case choice_delta ch of None \<Rightarrow> [] | Some d \<Rightarrow> delta_content d))"

text \<open>The part of the loop body after the merge: announcing tool calls, forwarding content.\<close>

definition announce :: "agent_state \<Rightarrow> exn + (event list \<times> agent_state)" where
  "announce st =
     (if \<not> toolCallsYielded st \<and> length (tool_calls_of (accumulatedMessage st)) > 0 then
        (case some_named (tool_calls_of (accumulatedMessage st)) of
           Inl e \<Rightarrow> Inl e
         | Inr hasCompleteTool \<Rightarrow>
             if hasCompleteTool
             then Inr ([Yield (ToolCalls (tool_calls_of (accumulatedMessage st)))],
                       st\<lparr>toolCallsYielded := True\<rparr>)
             else Inr ([], st))
      else Inr ([], st))"

definition forward :: "agent_env \<Rightarrow> chunk \<Rightarrow> agent_state \<Rightarrow> event list \<times> agent_state" where
  "forward env c st =
     (if chunk_text c \<noteq> [] then
        (let content' = accumulatedContent st @ chunk_text c;
             currentOutputTokens =
               estimateStreamingTokens env content'
               + (if js_truthy (js_prop (accumulatedMessage st) ''tool_calls'')
                  then countTokens env (JSON_stringify env (js_prop (accumulatedMessage st) ''tool_calls''))
                  else 0);
             st' = st\<lparr>accumulatedContent := content', totalOutputTokens := currentOutputTokens\<rparr>
         in ([Yield (Content (chunk_text c)),
              Yield (TokenCount (inputTokens st' + totalOutputTokens st'))], st'))
      else ([], st))"

text \<open>\<open>for await (const chunk of stream)\<close>: the fragments still to come, and how the stream ends.\<close>

fun streamLoop :: "agent_env \<Rightarrow> chunk list \<Rightarrow> exn option \<Rightarrow> agent_state \<Rightarrow> event list \<times> outcome" where
  "streamLoop env [] err st = ([], case err of None \<Rightarrow> Normal st | Some e \<Rightarrow> Thrown e st)"
| "streamLoop env (c # cs) err st =
     (if aborted env (st_clock st) then (Received c # cancelled, Returned (tick st))
      else if chunk_choices c = [] then
        (case streamLoop env cs err (tick st) of
           (evs, out) \<Rightarrow> (Received c # Checked False # evs, out))
      else
        (case messageReducer (accumulatedMessage st) c of
           Inl e \<Rightarrow> ([Received c, Checked False, Consumed c], Thrown e (tick st))
         | Inr acc \<Rightarrow>
             (case announce ((tick st)\<lparr>accumulatedMessage := acc\<rparr>) of
                Inl e \<Rightarrow> ([Received c, Checked False, Consumed c], Thrown e (tick st))
              | Inr (evs1, st1) \<Rightarrow>
                  (case forward env c st1 of
                     (evs2, st2) \<Rightarrow>
                       (case streamLoop env cs err st2 of
                          (evs, out) \<Rightarrow>
                            (Received c # Checked False # Consumed c # evs1 @ evs2 @ evs, out))))))"

definition result_text :: "ToolResult \<Rightarrow> string \<Rightarrow> string" where
  "result_text r fallback =
     (if tr_success r
      then (case tr_output r of Some out \<Rightarrow> (if out \<noteq> [] then out else ''Success'') | None \<Rightarrow> ''Success'')
      else (case tr_error r of Some err \<Rightarrow> (if err \<noteq> [] then err else fallback) | None \<Rightarrow> fallback))"

text \<open>\<open>for (const toolCall of toolCalls)\<close>\<close>

fun toolLoop :: "agent_env \<Rightarrow> json list \<Rightarrow> agent_state \<Rightarrow> event list \<times> outcome" where
  "toolLoop env [] st = ([], Normal st)"
| "toolLoop env (toolCall # rest) st =
     (if aborted env (st_clock st) then (cancelled, Returned (tick st))
      else
        (let result = fst (executeTool env (Suc (st_clock st)) toolCall);
             st1 = tick (tick st)
         in case js_get toolCall ''id'' of
              Inl e \<Rightarrow>
                ([Checked False, Executed toolCall, Yield (ToolResultChunk toolCall result)],
                 Thrown e st1)
            | Inr call_id \<Rightarrow>
                (case toolLoop env rest
                        (st1\<lparr>st_messages := st_messages st1 @
                              [\<lparr>role = Tool, content = result_text result ''Error'',
                                tool_calls = None,
                                tool_call_id = (if call_id = JUndefined then None
                                                else Some (js_toString call_id))\<rparr>]\<rparr>) of
                   (evs, out) \<Rightarrow>
                     (Checked False # Executed toolCall # Yield (ToolResultChunk toolCall result) # evs,
                      out))))"

text \<open>The statements after the \<open>while\<close> loop.\<close>

definition afterLoop :: "nat \<Rightarrow> event list" where
  "afterLoop toolRounds =
     (if toolRounds \<ge> maxToolRounds then [Yield (Content limit_notice)] else []) @ [Yield Done]"

text \<open>
  \<open>while (toolRounds < maxToolRounds)\<close>, from the current value of \<open>toolRounds\<close>; the
  result holds the events, how the \<open>try\<close> block ends and the final \<open>toolRounds\<close>.
\<close>

function agentLoop :: "agent_env \<Rightarrow> nat \<Rightarrow> agent_state \<Rightarrow> event list \<times> outcome \<times> nat" where
  "agentLoop env toolRounds st =
     (if toolRounds < maxToolRounds then
        (if aborted env (st_clock st)
         then (StartRound (toolRounds + 1) # cancelled, Returned (tick st), toolRounds)
         else
           (case getAllOllamaTools env toolRounds of
              Inl e \<Rightarrow> ([StartRound (toolRounds + 1), Checked False], Thrown e (tick st), toolRounds)
            | Inr tools \<Rightarrow>
                (case streamLoop env (fst (chatStream env toolRounds (st_messages st) tools))
                        (snd (chatStream env toolRounds (st_messages st) tools))
                        ((tick st)\<lparr>accumulatedMessage := JObject [], accumulatedContent := [],
                                    toolCallsYielded := False\<rparr>) of
                   (evs1, Normal st1) \<Rightarrow>
                     (let toolCalls =
                            (if tool_calls_of (accumulatedMessage st1) = []
                             then parseToolCallsFromContent env (st_clock st1)
                                    (js_prop (accumulatedMessage st1) ''content'')
                             else tool_calls_of (accumulatedMessage st1));
                          st2 = st1\<lparr>st_messages := st_messages st1 @
                                  [\<lparr>role = Assistant,
                                    content = characters (js_prop (accumulatedMessage st1) ''content''),
                                    tool_calls = Some toolCalls, tool_call_id = None\<rparr>]\<rparr>
                      in if length toolCalls > 0 then
                           (case toolLoop env toolCalls st2 of
                              (evs2, Normal st3) \<Rightarrow>
                                (case agentLoop env (toolRounds + 1)
                                        (st3\<lparr>inputTokens := countMessageTokens env (st_messages st3)\<rparr>) of
                                   (evs3, out, n) \<Rightarrow>
                                     (StartRound (toolRounds + 1) # Checked False # evs1
                                      @ (if toolCallsYielded st1 then [] else [Yield (ToolCalls toolCalls)])
                                      @ evs2
                                      @ [Yield (TokenCount (countMessageTokens env (st_messages st3)
                                                            + totalOutputTokens st3))]
                                      @ evs3, out, n))
                            | (evs2, out) \<Rightarrow>
                                (StartRound (toolRounds + 1) # Checked False # evs1
                                 @ (if toolCallsYielded st1 then [] else [Yield (ToolCalls toolCalls)])
                                 @ evs2, out, toolRounds + 1))
                         else (StartRound (toolRounds + 1) # Checked False # evs1 @ afterLoop toolRounds,
                               Normal st2, toolRounds))
                 | (evs1, out) \<Rightarrow> (StartRound (toolRounds + 1) # Checked False # evs1, out, toolRounds))))
      else (afterLoop toolRounds, Normal st, toolRounds))"
  by pat_completeness auto
termination
  by (relation "measure (\<lambda>(env, toolRounds, st). maxToolRounds - toolRounds)") auto

declare agentLoop.simps [simp del]

text \<open>The handler of the \<open>try\<close> block.\<close>

definition handler :: "agent_env \<Rightarrow> exn \<Rightarrow> agent_state \<Rightarrow> event list" where
  "handler env e st =
     (if aborted env (st_clock st) then cancelled
      else [Checked False, Yield (Content (''Sorry, I encountered an error: '' @ message e)),
            Yield Done])"

definition processUserMessageStream :: "agent_env \<Rightarrow> agent_state \<Rightarrow> string \<Rightarrow> event list \<times> nat" where
  "processUserMessageStream env st msg =
     (case manageContextSize (countMessageTokens env)
             (st_messages st @ [\<lparr>role = User, content = msg, tool_calls = None, tool_call_id = None\<rparr>]) of
        (messages', tokens) \<Rightarrow>
          (case agentLoop env 0 (st\<lparr>st_messages := messages', inputTokens := tokens,
                                     totalOutputTokens := 0\<rparr>) of
             (evs, Thrown e st', n) \<Rightarrow> (Yield (TokenCount tokens) # evs @ handler env e st', n)
           | (evs, out, n) \<Rightarrow> (Yield (TokenCount tokens) # evs, n)))"

subsection \<open>A concrete \<open>JSON.stringify\<close>\<close>

definition hex_digit :: "nat \<Rightarrow> char" where
  "hex_digit n = ''0123456789abcdef'' ! (n mod 16)"

definition quote_char :: "char \<Rightarrow> string" where
  "quote_char c =
     (if c = dquote then [backslash, dquote]
      else if c = backslash then [backslash, backslash]
      else if c = CHR 0x08 then [backslash, CHR ''b'']
      else if c = CHR 0x0C then [backslash, CHR ''f'']
      else if c = CHR 0x0A then [backslash, CHR ''n'']
      else if c = CHR 0x0D then [backslash, CHR ''r'']
      else if c = CHR 0x09 then [backslash, CHR ''t'']
      else if (of_char c :: nat) < 0x20
      then [backslash, CHR ''u'', CHR ''0'', CHR ''0'', hex_digit (of_char c div 16), hex_digit (of_char c)]
      else [c])"

definition quote :: "string \<Rightarrow> string" where
  "quote s = [dquote] @ concat (map quote_char s) @ [dquote]"

fun json_stringify :: "json \<Rightarrow> string" where
  "json_stringify JUndefined = ''undefined''"
| "json_stringify JNull = ''null''"
| "json_stringify (JBool b) = (if b then ''true'' else ''false'')"
| "json_stringify (JNumber lit) = lit"
| "json_stringify (JString s) = quote s"
| "json_stringify (JArray xs) =
     ''['' @ join '','' (map (\<lambda>x. if x = JUndefined then ''null'' else json_stringify x) xs) @ '']''"
| "json_stringify (JObject kvs) =
     ''{'' @ join '','' (map (\<lambda>kv. quote (fst kv) @ '':'' @ json_stringify (snd kv))
                           (filter (\<lambda>kv. snd kv \<noteq> JUndefined) kvs)) @ ''}''"

subsection \<open>Example sessions\<close>

definition ok_result :: "string \<Rightarrow> ToolResult" where
  "ok_result out = \<lparr>tr_success = True, tr_output = Some out, tr_error = None\<rparr>"

definition example_agent ::
  "(nat \<Rightarrow> bool) \<Rightarrow> (nat \<Rightarrow> chunk list \<times> exn option) \<Rightarrow>
   (nat \<Rightarrow> string \<Rightarrow> json list \<Rightarrow> exn + ToolResult) \<Rightarrow> agent_env" where
  "example_agent flag streams tools =
     \<lparr>JSON_parse = json_parse, JSON_stringify = json_stringify,
      aborted = flag, getAllOllamaTools = (\<lambda>r. Inr []),
      chatStream = (\<lambda>r msgs tools. streams r),
      parseToolCallsFromContent = (\<lambda>t c. []),
      countMessageTokens = (\<lambda>ms. 10 * length ms),
      estimateStreamingTokens = (\<lambda>s. length s div 4),
      countTokens = (\<lambda>s. length s div 4),
      tool = tools,
      callTool = (\<lambda>t name args. Inr \<lparr>isError = False, mcp_content = [TextItem ''done'']\<rparr>)\<rparr>"

definition initial_state :: agent_state where
  "initial_state =
     \<lparr>st_messages = [\<lparr>role = System, content = ''You are Ollama Agent CLI'', tool_calls = None,
                       tool_call_id = None\<rparr>],
      st_clock = 0, inputTokens = 0, totalOutputTokens = 0, accumulatedMessage = JObject [],
      accumulatedContent = [], toolCallsYielded = False\<rparr>"

definition ls_call :: json where
  \<open>ls_call = JObject [(''id'', JString ''call_1''),
     (''function'', JObject [(''name'', JString ''bash''), (''arguments'', JString ''{"command":"ls"}'')])]\<close>

text \<open>A model that asks for \<open>ls\<close> in every round, and one that answers after the first.\<close>

definition ls_stream :: "chunk list \<times> exn option" where
  "ls_stream = ([chunk_of [] (Some [ls_call])], None)"

definition answer_stream :: "chunk list \<times> exn option" where
  "answer_stream = ([chunk_of ''two '' None, chunk_of ''files'' None], None)"


definition ls_once :: "(nat \<Rightarrow> bool) \<Rightarrow> (nat \<Rightarrow> string \<Rightarrow> json list \<Rightarrow> exn + ToolResult) \<Rightarrow> agent_env" where
  "ls_once flag tools = example_agent flag (\<lambda>r. if r = 0 then ls_stream else answer_stream) tools"

fun yielded :: "event list \<Rightarrow> StreamingChunk list" where
  "yielded [] = []"
| "yielded (Yield c # evs) = c # yielded evs"
| "yielded (e # evs) = yielded evs"

fun shape :: "event \<Rightarrow> string" where
  "shape (Yield (Content s)) = ''content''"
| "shape (Yield (ToolCalls s)) = ''tool_calls''"
| "shape (Yield (ToolResultChunk c r)) = ''tool_result''"
| "shape (Yield Done) = ''done''"
| "shape (Yield (TokenCount n)) = ''token_count''"
| "shape (StartRound n) = ''round''"
| "shape (Checked b) = (if b then ''check:set'' else ''check:clear'')"
| "shape (Received c) = ''receive''"
| "shape (Consumed c) = ''consume''"
| "shape (Executed c) = ''execute''"






section \<open>Cancellation checkpoints\<close>

text \<open>An action is the consumption of a fragment or the execution of a tool invocation.\<close>

fun is_action :: "event \<Rightarrow> bool" where
  "is_action (Consumed c) = True"
| "is_action (Executed tc) = True"
| "is_action _ = False"

text \<open>
  \<open>guarded ok evs\<close>: every action in \<open>evs\<close> comes right after a read of the abort flag
  that found it clear (\<open>ok\<close> says whether such a read comes right before \<open>evs\<close>).
  \<open>stops evs\<close>: a read that found the flag set is followed by the cancellation notice,
  the \<open>done\<close> chunk and nothing else.
\<close>

fun guarded :: "bool \<Rightarrow> event list \<Rightarrow> bool" where
  "guarded ok [] = True"
| "guarded ok (e # evs) = ((is_action e \<longrightarrow> ok) \<and> guarded (e = Checked False) evs)"

fun stops :: "event list \<Rightarrow> bool" where
  "stops [] = True"
| "stops (e # evs) =
     (if e = Checked True then evs = [Yield (Content cancel_notice), Yield Done] else stops evs)"

lemma guarded_weaken: "guarded False evs \<Longrightarrow> guarded ok evs"
  by (cases evs) auto

lemma guarded_append: "guarded ok xs \<Longrightarrow> guarded False ys \<Longrightarrow> guarded ok (xs @ ys)"
  by (induction xs arbitrary: ok) (auto intro: guarded_weaken)

lemma stops_append: "Checked True \<notin> set xs \<Longrightarrow> stops ys \<Longrightarrow> stops (xs @ ys)"
  by (induction xs) auto

lemma stops_clear: "Checked True \<notin> set xs \<Longrightarrow> stops xs"
  by (induction xs) auto

lemma guarded_nth:
  "guarded ok evs \<Longrightarrow> i < length evs \<Longrightarrow> is_action (evs ! i) \<Longrightarrow>
   (if i = 0 then ok else evs ! (i - 1) = Checked False)"
proof (induction evs arbitrary: ok i)
  case Nil
  then show ?case by simp
next
  case (Cons e evs)
  show ?case
  proof (cases i)
    case 0
    with Cons.prems show ?thesis by simp
  next
    case (Suc j)
    with Cons.prems have "guarded (e = Checked False) evs" "j < length evs" "is_action (evs ! j)"
      by simp_all
    from Cons.IH [OF this] Suc show ?thesis
      by (cases j) simp_all
  qed
qed

lemma stops_nth:
  "stops evs \<Longrightarrow> i < length evs \<Longrightarrow> evs ! i = Checked True \<Longrightarrow>
   drop (Suc i) evs = [Yield (Content cancel_notice), Yield Done]"
proof (induction evs arbitrary: i)
  case Nil
  then show ?case by simp
next
  case (Cons e evs)
  show ?case
  proof (cases i)
    case 0
    with Cons.prems show ?thesis by simp
  next
    case (Suc j)
    show ?thesis
    proof (cases "e = Checked True")
      case True
      with Cons.prems Suc show ?thesis
        by (cases j) (auto simp: nth_Cons')
    next
      case False
      with Cons.prems Suc have "stops evs" "j < length evs" "evs ! j = Checked True"
        by simp_all
      from Cons.IH [OF this] Suc show ?thesis by simp
    qed
  qed
qed

text \<open>
  What each part of the generator keeps: its actions are guarded; if the generator returned
  from inside it, its events stop as a cancellation does; otherwise the flag was never read set.
\<close>

definition disciplined :: "event list \<Rightarrow> outcome \<Rightarrow> bool" where
  "disciplined evs out =
     (guarded False evs
      \<and> (case out of Returned st \<Rightarrow> stops evs | _ \<Rightarrow> Checked True \<notin> set evs))"

lemma cancelled_facts [simp]:
  "guarded ok cancelled" "stops cancelled"
  by (simp_all add: cancelled_def)

lemma announce_events:
  "announce st = Inr (evs, st') \<Longrightarrow> guarded False evs \<and> Checked True \<notin> set evs"
  by (auto simp: announce_def split: if_splits sum.splits)

lemma forward_events:
  "forward env c st = (evs, st') \<Longrightarrow> guarded False evs \<and> Checked True \<notin> set evs"
  by (auto simp: forward_def Let_def split: if_splits)

lemma streamLoop_disciplined:
  "streamLoop env cs err st = (evs, out) \<Longrightarrow> disciplined evs out"
proof (induction cs arbitrary: st evs out)
  case Nil
  then show ?case by (auto simp: disciplined_def split: option.splits)
next
  case (Cons c cs)
  show ?case
  proof (cases "aborted env (st_clock st)")
    case True
    with Cons.prems show ?thesis
      by (auto simp: disciplined_def)
  next
    case clear: False
    show ?thesis
    proof (cases "chunk_choices c = []")
      case True
      with clear Cons.prems obtain evs' where
        r: "streamLoop env cs err (tick st) = (evs', out)" and e: "evs = Received c # Checked False # evs'"
        by (auto split: prod.splits)
      from Cons.IH [OF r] e show ?thesis
        by (auto simp: disciplined_def intro: guarded_weaken split: outcome.splits)
    next
      case False
      show ?thesis
      proof (cases "messageReducer (accumulatedMessage st) c")
        case (Inl e)
        with clear False Cons.prems show ?thesis
          by (auto simp: disciplined_def)
      next
        case (Inr acc)
        show ?thesis
        proof (cases "announce ((tick st)\<lparr>accumulatedMessage := acc\<rparr>)")
          case (Inl e)
          with clear False Inr Cons.prems show ?thesis
            by (auto simp: disciplined_def)
        next
          case ann: (Inr p)
          obtain evs1 st1 where p: "p = (evs1, st1)" by (cases p)
          obtain evs2 st2 where fw: "forward env c st1 = (evs2, st2)" by (cases "forward env c st1")
          obtain evs' out' where r: "streamLoop env cs err st2 = (evs', out')"
            by (cases "streamLoop env cs err st2")
          from clear False Inr ann p fw r Cons.prems have
            e: "evs = Received c # Checked False # Consumed c # evs1 @ evs2 @ evs'" and o: "out = out'"
            by auto
          from Cons.IH [OF r] have ih: "disciplined evs' out" using o by simp
          from announce_events [OF ann [unfolded p]] forward_events [OF fw]
          have mid: "guarded False (evs1 @ evs2)" "Checked True \<notin> set (evs1 @ evs2)"
            by (auto intro: guarded_append)
          have g: "guarded False evs"
            unfolding e using mid(1) ih
            by (auto simp: disciplined_def intro!: guarded_append [of _ "evs1 @ evs2" evs', simplified])
          have s: "(case out of Returned st \<Rightarrow> stops evs | _ \<Rightarrow> Checked True \<notin> set evs)"
            unfolding e using mid(2) ih stops_append [of "evs1 @ evs2" evs']
            by (auto simp: disciplined_def split: outcome.splits)
          show ?thesis
            using g s by (simp add: disciplined_def)
        qed
      qed
    qed
  qed
qed


lemma disciplined_prefix:
  "guarded False xs \<Longrightarrow> Checked True \<notin> set xs \<Longrightarrow> disciplined ys out \<Longrightarrow>
   disciplined (xs @ ys) out"
  by (auto simp: disciplined_def intro: guarded_append stops_append split: outcome.splits)

lemma disciplined_Normal:
  "disciplined xs (Normal st) \<Longrightarrow> guarded False xs \<and> Checked True \<notin> set xs"
  by (simp add: disciplined_def)

lemma disciplined_clear:
  "guarded False xs \<Longrightarrow> Checked True \<notin> set xs \<Longrightarrow> out = Normal st \<or> out = Thrown e st \<Longrightarrow>
   disciplined xs out"
  by (auto simp: disciplined_def)

lemma toolLoop_disciplined:
  "toolLoop env tcs st = (evs, out) \<Longrightarrow> disciplined evs out"
proof (induction tcs arbitrary: st evs out)
  case Nil
  then show ?case by (auto simp: disciplined_def)
next
  case (Cons tc rest)
  show ?case
  proof (cases "aborted env (st_clock st)")
    case True
    with Cons.prems show ?thesis by (auto simp: disciplined_def)
  next
    case clear: False
    show ?thesis
    proof (cases "js_get tc ''id''")
      case (Inl e)
      with clear Cons.prems show ?thesis by (auto simp: disciplined_def Let_def)
    next
      case (Inr call_id)
      with clear Cons.prems obtain st' evs' r where
        r: "toolLoop env rest st' = (evs', out)" and
        e: "evs = [Checked False, Executed tc, Yield (ToolResultChunk tc r)] @ evs'"
        by (auto simp: Let_def split: prod.splits)
      show ?thesis
        unfolding e by (rule disciplined_prefix [OF _ _ Cons.IH [OF r]]) simp_all
    qed
  qed
qed

lemma afterLoop_events [simp]:
  "guarded ok (afterLoop n)" "Checked True \<notin> set (afterLoop n)"
  by (simp_all add: afterLoop_def)

text \<open>One iteration of the \<open>while\<close> loop, case by case.\<close>

definition roundStart :: "agent_state \<Rightarrow> agent_state" where
  "roundStart st = (tick st)\<lparr>accumulatedMessage := JObject [], accumulatedContent := [],
                               toolCallsYielded := False\<rparr>"

definition roundStream :: "agent_env \<Rightarrow> nat \<Rightarrow> OllamaTool list \<Rightarrow> agent_state \<Rightarrow> event list \<times> outcome" where
  "roundStream env toolRounds tools st =
     streamLoop env (fst (chatStream env toolRounds (st_messages st) tools))
       (snd (chatStream env toolRounds (st_messages st) tools)) (roundStart st)"

definition roundToolCalls :: "agent_env \<Rightarrow> agent_state \<Rightarrow> json list" where
  "roundToolCalls env st1 =
     (if tool_calls_of (accumulatedMessage st1) = []
      then parseToolCallsFromContent env (st_clock st1) (js_prop (accumulatedMessage st1) ''content'')
      else tool_calls_of (accumulatedMessage st1))"

definition pushAssistant :: "agent_env \<Rightarrow> agent_state \<Rightarrow> agent_state" where
  "pushAssistant env st1 =
     st1\<lparr>st_messages := st_messages st1 @
          [\<lparr>role = Assistant, content = characters (js_prop (accumulatedMessage st1) ''content''),
            tool_calls = Some (roundToolCalls env st1), tool_call_id = None\<rparr>]\<rparr>"

definition lateToolCalls :: "agent_env \<Rightarrow> agent_state \<Rightarrow> event list" where
  "lateToolCalls env st1 =
     (if toolCallsYielded st1 then [] else [Yield (ToolCalls (roundToolCalls env st1))])"

definition recount :: "agent_env \<Rightarrow> agent_state \<Rightarrow> agent_state" where
  "recount env st3 = st3\<lparr>inputTokens := countMessageTokens env (st_messages st3)\<rparr>"

lemmas round_defs = roundStart_def roundStream_def roundToolCalls_def pushAssistant_def
  lateToolCalls_def recount_def

lemma agentLoop_cap:
  "\<not> toolRounds < maxToolRounds \<Longrightarrow>
   agentLoop env toolRounds st = (afterLoop toolRounds, Normal st, toolRounds)"
  by (simp add: agentLoop.simps [of env toolRounds st])

lemma agentLoop_cancelled:
  "toolRounds < maxToolRounds \<Longrightarrow> aborted env (st_clock st) \<Longrightarrow>
   agentLoop env toolRounds st
     = (StartRound (toolRounds + 1) # cancelled, Returned (tick st), toolRounds)"
  by (simp add: agentLoop.simps [of env toolRounds st])

lemma agentLoop_no_tools:
  "toolRounds < maxToolRounds \<Longrightarrow> \<not> aborted env (st_clock st) \<Longrightarrow>
   getAllOllamaTools env toolRounds = Inl e \<Longrightarrow>
   agentLoop env toolRounds st
     = ([StartRound (toolRounds + 1), Checked False], Thrown e (tick st), toolRounds)"
  by (simp add: agentLoop.simps [of env toolRounds st])

lemma agentLoop_stream_stops:
  "toolRounds < maxToolRounds \<Longrightarrow> \<not> aborted env (st_clock st) \<Longrightarrow>
   getAllOllamaTools env toolRounds = Inr tools \<Longrightarrow>
   roundStream env toolRounds tools st = (evs1, out1) \<Longrightarrow> \<forall>st1. out1 \<noteq> Normal st1 \<Longrightarrow>
   agentLoop env toolRounds st
     = ([StartRound (toolRounds + 1), Checked False] @ evs1, out1, toolRounds)"
  by (simp add: agentLoop.simps [of env toolRounds st] round_defs split: outcome.splits)

lemma agentLoop_answer:
  "toolRounds < maxToolRounds \<Longrightarrow> \<not> aborted env (st_clock st) \<Longrightarrow>
   getAllOllamaTools env toolRounds = Inr tools \<Longrightarrow>
   roundStream env toolRounds tools st = (evs1, Normal st1) \<Longrightarrow> roundToolCalls env st1 = [] \<Longrightarrow>
   agentLoop env toolRounds st
     = ([StartRound (toolRounds + 1), Checked False] @ evs1 @ afterLoop toolRounds,
        Normal (pushAssistant env st1), toolRounds)"
  by (simp add: agentLoop.simps [of env toolRounds st] round_defs Let_def)

lemma agentLoop_tools_stop:
  "toolRounds < maxToolRounds \<Longrightarrow> \<not> aborted env (st_clock st) \<Longrightarrow>
   getAllOllamaTools env toolRounds = Inr tools \<Longrightarrow>
   roundStream env toolRounds tools st = (evs1, Normal st1) \<Longrightarrow> roundToolCalls env st1 \<noteq> [] \<Longrightarrow>
   toolLoop env (roundToolCalls env st1) (pushAssistant env st1) = (evs2, out2) \<Longrightarrow>
   \<forall>st3. out2 \<noteq> Normal st3 \<Longrightarrow>
   agentLoop env toolRounds st
     = ([StartRound (toolRounds + 1), Checked False] @ evs1 @ lateToolCalls env st1 @ evs2,
        out2, toolRounds + 1)"
  by (simp add: agentLoop.simps [of env toolRounds st] round_defs Let_def split: outcome.splits)

lemma agentLoop_next:
  "toolRounds < maxToolRounds \<Longrightarrow> \<not> aborted env (st_clock st) \<Longrightarrow>
   getAllOllamaTools env toolRounds = Inr tools \<Longrightarrow>
   roundStream env toolRounds tools st = (evs1, Normal st1) \<Longrightarrow> roundToolCalls env st1 \<noteq> [] \<Longrightarrow>
   toolLoop env (roundToolCalls env st1) (pushAssistant env st1) = (evs2, Normal st3) \<Longrightarrow>
   agentLoop env (toolRounds + 1) (recount env st3) = (evs3, out, n) \<Longrightarrow>
   agentLoop env toolRounds st
     = (([StartRound (toolRounds + 1), Checked False] @ evs1 @ lateToolCalls env st1 @ evs2
         @ [Yield (TokenCount (inputTokens (recount env st3) + totalOutputTokens st3))]) @ evs3,
        out, n)"
  by (simp add: agentLoop.simps [of env toolRounds st] round_defs Let_def)

lemma lateToolCalls_events [simp]:
  "guarded ok (lateToolCalls env st1)" "Checked True \<notin> set (lateToolCalls env st1)"
  by (simp_all add: lateToolCalls_def)

lemma agentLoop_disciplined:
  "agentLoop env n st = (evs, out, m) \<Longrightarrow> disciplined evs out"
proof (induction k \<equiv> "maxToolRounds - n" arbitrary: n st evs out m)
  case 0
  then have "\<not> n < maxToolRounds" by simp
  from agentLoop_cap [OF this] "0.prems" show ?case
    by (auto simp: disciplined_def)
next
  case (Suc k)
  then have lt: "n < maxToolRounds" and k: "k = maxToolRounds - (n + 1)"
    by simp_all
  note IH = Suc.hyps(1) [OF k]
  note run = Suc.prems
  show ?case
  proof (cases "aborted env (st_clock st)")
    case True
    from agentLoop_cancelled [OF lt True] run show ?thesis
      by (auto simp: disciplined_def)
  next
    case clear: False
    show ?thesis
    proof (cases "getAllOllamaTools env n")
      case (Inl e)
      from agentLoop_no_tools [OF lt clear Inl] run show ?thesis
        by (auto simp: disciplined_def)
    next
      case (Inr tools)
      obtain evs1 out1 where s: "roundStream env n tools st = (evs1, out1)"
        by (cases "roundStream env n tools st")
      note d1 = streamLoop_disciplined [OF s [unfolded roundStream_def]]
      show ?thesis
      proof (cases "\<exists>st1. out1 = Normal st1")
        case False
        then have "\<forall>st1. out1 \<noteq> Normal st1" by simp
        from agentLoop_stream_stops [OF lt clear Inr s this] run
        have "evs = [StartRound (n + 1), Checked False] @ evs1" "out = out1"
          by simp_all
        with disciplined_prefix [of "[StartRound (n + 1), Checked False]" evs1 out1] d1
        show ?thesis
          by simp
      next
        case True
        then obtain st1 where n1: "out1 = Normal st1" ..
        note s1 = s [unfolded n1]
        from d1 n1 have c1: "guarded False evs1" "Checked True \<notin> set evs1"
          by (simp_all add: disciplined_def)
        show ?thesis
        proof (cases "roundToolCalls env st1 = []")
          case True
          from agentLoop_answer [OF lt clear Inr s1 True] run
          have "evs = ([StartRound (n + 1), Checked False] @ evs1) @ afterLoop n"
            "out = Normal (pushAssistant env st1)"
            by simp_all
          with c1 show ?thesis
            by (auto simp: disciplined_def intro!: guarded_append intro: guarded_weaken)
        next
          case calls: False
          obtain evs2 out2 where
            t: "toolLoop env (roundToolCalls env st1) (pushAssistant env st1) = (evs2, out2)"
            by (cases "toolLoop env (roundToolCalls env st1) (pushAssistant env st1)")
          note d2 = toolLoop_disciplined [OF t]
          define pre where "pre = [StartRound (n + 1), Checked False] @ evs1 @ lateToolCalls env st1"
          have p: "guarded False pre" "Checked True \<notin> set pre"
            using c1 by (auto simp: pre_def intro!: guarded_append intro: guarded_weaken)
          show ?thesis
          proof (cases "\<exists>st3. out2 = Normal st3")
            case False
            then have "\<forall>st3. out2 \<noteq> Normal st3" by simp
            from agentLoop_tools_stop [OF lt clear Inr s1 calls t this] run
            have "evs = pre @ evs2" "out = out2"
              by (simp_all add: pre_def)
            with p d2 show ?thesis
              by (auto intro!: disciplined_prefix)
          next
            case True
            then obtain st3 where n3: "out2 = Normal st3" ..
            obtain evs3 out3 m3 where a: "agentLoop env (n + 1) (recount env st3) = (evs3, out3, m3)"
              by (cases "agentLoop env (n + 1) (recount env st3)")
            from agentLoop_next [OF lt clear Inr s1 calls t [unfolded n3] a] run
            have e: "evs = (pre @ evs2 @ [Yield (TokenCount (inputTokens (recount env st3)
                                                  + totalOutputTokens st3))]) @ evs3" and
              o: "out = out3"
              by (simp_all add: pre_def)
            from d2 n3 have c2: "guarded False evs2" "Checked True \<notin> set evs2"
              by (simp_all add: disciplined_def)
            show ?thesis
              unfolding e o
              by (rule disciplined_prefix [OF _ _ IH [OF a]])
                 (use p c2 in \<open>auto intro!: guarded_append intro: guarded_weaken\<close>)
          qed
        qed
      qed
    qed
  qed
qed

lemma handler_events:
  "guarded False (handler env e st)" "stops (handler env e st)"
  by (simp_all add: handler_def)

lemma process_disciplined:
  "guarded False (fst (processUserMessageStream env st msg))
   \<and> stops (fst (processUserMessageStream env st msg))"
proof -
  obtain messages' tokens where
    m: "manageContextSize (countMessageTokens env)
          (st_messages st @ [\<lparr>role = User, content = msg, tool_calls = None, tool_call_id = None\<rparr>])
        = (messages', tokens)"
    by (cases "manageContextSize (countMessageTokens env)
          (st_messages st @ [\<lparr>role = User, content = msg, tool_calls = None, tool_call_id = None\<rparr>])")
  obtain evs out n where
    a: "agentLoop env 0 (st\<lparr>st_messages := messages', inputTokens := tokens, totalOutputTokens := 0\<rparr>)
        = (evs, out, n)"
    by (cases "agentLoop env 0 (st\<lparr>st_messages := messages', inputTokens := tokens,
                                     totalOutputTokens := 0\<rparr>)")
  note d = agentLoop_disciplined [OF a]
  show ?thesis
  proof (cases out)
    case (Normal st')
    with d m a show ?thesis
      by (auto simp: processUserMessageStream_def disciplined_def intro: stops_clear guarded_weaken)
  next
    case (Returned st')
    with d m a show ?thesis
      by (auto simp: processUserMessageStream_def disciplined_def intro: guarded_weaken)
  next
    case (Thrown e st')
    with d m a have "fst (processUserMessageStream env st msg)
        = (Yield (TokenCount tokens) # evs) @ handler env e st'"
      "guarded False (Yield (TokenCount tokens) # evs)" "Checked True \<notin> set (Yield (TokenCount tokens) # evs)"
      by (auto simp: processUserMessageStream_def disciplined_def intro: guarded_weaken)
    then show ?thesis
      using handler_events [of env e st']
      by (auto simp del: append_Cons intro!: guarded_append stops_append)
  qed
qed

text \<open>
  Claim C8.  In every run of \<open>processUserMessageStream\<close>, whatever the environment does:
  every consumption of a stream fragment (the merge into the accumulated message) and
  every execution of a tool invocation comes right after a read of the cancellation flag
  that found it clear; and whenever a read finds the flag set (at the start of a round,
  before a fragment, before a tool, or in the handler of the \<open>try\<close> block) the rest of the
  run is exactly the cancellation notice chunk followed by the \<open>done\<close> chunk, so that no
  fragment is received or consumed and no tool is executed after it.
\<close>

theorem cancellation_checkpoints:
  fixes env st msg
  defines "trace \<equiv> fst (processUserMessageStream env st msg)"
  shows "(\<forall>i<length trace. is_action (trace ! i) \<longrightarrow> 0 < i \<and> trace ! (i - 1) = Checked False)
       \<and> (\<forall>i<length trace. trace ! i = Checked True \<longrightarrow>
            drop (Suc i) trace = [Yield (Content cancel_notice), Yield Done])"
proof -
  have g: "guarded False trace" and s: "stops trace"
    using process_disciplined [of env st msg] by (simp_all add: trace_def)
  have "0 < i \<and> trace ! (i - 1) = Checked False" if "i < length trace" "is_action (trace ! i)" for i
    using guarded_nth [OF g that] by (cases "i = 0") simp_all
  with stops_nth [OF s] show ?thesis
    by blast
qed

text \<open>The session that asks for \<open>ls\<close> once, cancelled after \<open>k\<close> interactions.\<close>

definition cancel_after :: "nat \<Rightarrow> agent_env" where
  "cancel_after k = ls_once (\<lambda>t. k \<le> t) (\<lambda>t method args. Inr (ok_result ''a.txt''))"

definition cancelled_run :: "event list" where
  "cancelled_run = fst (processUserMessageStream (cancel_after 4) initial_state ''list'')"

lemma cancelled_run_shape:
  "map shape cancelled_run =
     [''token_count'', ''round'', ''check:clear'', ''receive'', ''check:clear'', ''consume'',
      ''tool_calls'', ''check:clear'', ''execute'', ''tool_result'', ''token_count'', ''round'',
      ''check:set'', ''content'', ''done'']"
  by code_simp

lemma shape_execute: "shape e = ''execute'' \<Longrightarrow> is_action e"
  by (cases e rule: shape.cases) (simp_all split: if_splits)

lemma shape_set: "shape e = ''check:set'' \<Longrightarrow> e = Checked True"
  by (cases e rule: shape.cases) (simp_all split: if_splits)

theorem cancellation_checkpoints_witness:
  "is_action (cancelled_run ! 8) \<and> cancelled_run ! 7 = Checked False
   \<and> cancelled_run ! 12 = Checked True
   \<and> drop 13 cancelled_run = [Yield (Content cancel_notice), Yield Done]"
proof -
  have len: "length cancelled_run = 15"
    using arg_cong [OF cancelled_run_shape, of length] by simp
  have "shape (cancelled_run ! 8) = ''execute''" "shape (cancelled_run ! 12) = ''check:set''"
    using arg_cong [OF cancelled_run_shape, of "\<lambda>xs. xs ! 8"]
      arg_cong [OF cancelled_run_shape, of "\<lambda>xs. xs ! 12"] len
    by simp_all
  then have a: "is_action (cancelled_run ! 8)" and b: "cancelled_run ! 12 = Checked True"
    by (simp_all add: shape_execute shape_set)
  note T = cancellation_checkpoints [of "cancel_after 4" initial_state "''list''",
      folded cancelled_run_def]
  from T [THEN conjunct1, rule_format, of 8] len a have "cancelled_run ! 7 = Checked False"
    by simp
  moreover from T [THEN conjunct2, rule_format, of 12] len b
  have "drop 13 cancelled_run = [Yield (Content cancel_notice), Yield Done]"
    by simp
  ultimately show ?thesis
    using a b by simp
qed

end
